theory Spec2Isabelle
  imports Complex_Main
begin

section \<open>nearest-color: the values of the program\<close>

text \<open>
  The embedding follows version 0.4.4 of the library (the variant with \<open>createColorSpec\<close>,
  \<open>rgbToHex\<close>, \<open>matcher.or\<close> and the \<open>distance\<close> field). The \<open>mapColors\<close> and
  \<open>parseColor\<close> of the older variant in \<open>src/nearestColor.js\<close> are modelled beside it, with
  the suffix \<open>_old\<close>, for the statement about the elements that \<open>mapColors\<close> passes through.

  JavaScript values are modelled as far as the program inspects them:
  \<^item> a string is a \<open>string\<close>: a list of code units below 256;
  \<^item> a number that is an RGB component is an \<open>int\<close>: the model covers the RGB objects
    whose components are integers. The arithmetic the program applies to components
    (\<open>-\<close>, \<open>Math.pow(_, 2)\<close>, \<open>+\<close>, \<open>*\<close> 255) is exact on doubles while the integers stay
    below \<open>2^53\<close>. For the parsed strings this always holds (a component has at most three
    digits). For the distance of two RGB objects it holds when their components are at most
    \<open>2^24\<close> in absolute value (\<open>exactRange\<close>, lemma \<open>squaredDistance_exact\<close>); beyond, the
    code rounds its sums and a sum can overflow to \<open>Infinity\<close>, so every theorem about
    distances assumes \<open>exactRange\<close> of the colours it compares. \<open>Math.round(v * 255 / 100)\<close>
    is modelled on the exact quotient (a double nearest to the quotient lies on the same
    side of every half-integer, half-integers being doubles themselves);
  \<^item> \<open>Math.sqrt\<close> is the real square root \<open>sqrt\<close> (JavaScript returns the double nearest
    to it, which is the root itself on perfect squares);
  \<^item> \<open>NaN\<close>, \<open>Infinity\<close> and \<open>undefined\<close> appear as \<open>None\<close> where the program can
    produce them.
\<close>

record RGB =
  r :: int
  g :: int
  b :: int

text \<open>
  The values with \<open>typeof x === 'object'\<close> that reach the program: an RGB object, the
  object \<open>Object.prototype\<close> (which has no property \<open>r\<close>, \<open>g\<close>, \<open>b\<close>, \<open>source\<close> or
  \<open>name\<close>), and \<open>null\<close>.
\<close>

datatype jsobject = Rgb RGB | ObjectPrototype | Null

datatype jsvalue = Str string | Obj jsobject | Function

text \<open>
  The two ways the program fails: the \<open>throw Error('"' + source + '" is not a valid color')\<close>
  of \<open>parseColor\<close>, which carries the offending source, and a \<open>TypeError\<close> raised by the
  JavaScript engine, tagged with the expression that raised it.
\<close>

datatype type_error =
    ValueUndefined       \<comment> \<open>\<open>value.name\<close> in \<open>nearestColor\<close>, with \<open>value\<close> undefined\<close>
  | MatchNotAFunction    \<comment> \<open>\<open>source.match(...)\<close> in \<open>parseColor\<close>, on a function\<close>
  | PropertyOfNull       \<comment> \<open>\<open>rgb.r\<close> in \<open>nearestColor\<close>, with \<open>rgb\<close> null\<close>
  | ToStringOfUndefined  \<comment> \<open>\<open>rgb.r.toString(16)\<close> in \<open>rgbToHex\<close>, with \<open>rgb.r\<close> undefined\<close>

datatype error = InvalidColorFormat string | TypeError type_error

record ColorMatch =
  name :: string
  "value" :: string
  rgb :: jsobject
  distance :: real

record ColorSpec =
  name :: "string option"
  source :: string
  rgb :: jsobject

text \<open>What \<open>nearestColor\<close> returns: \<open>null\<close>, a bare source string, or a \<open>ColorMatch\<close>.\<close>

datatype result = ResultNull | ResultSource string | ResultMatch ColorMatch

section \<open>Characters, digits and the two regular expressions\<close>

definition isDigit :: "char \<Rightarrow> bool" where
  "isDigit c = (c \<in> set ''0123456789'')"

definition isHexDigit :: "char \<Rightarrow> bool" where
  "isHexDigit c = (c \<in> set ''0123456789abcdefABCDEF'')"

text \<open>The class \<open>\s\<close> below code unit 256: TAB, LF, VT, FF, CR, space and NBSP.\<close>

definition isSpace :: "char \<Rightarrow> bool" where
  "isSpace c = (of_char c \<in> set [9, 10, 11, 12, 13, 32, 160 :: nat])"

definition digitValue :: "char \<Rightarrow> int" where
  "digitValue c =
     (let n = of_char c :: int in
      if 48 \<le> n \<and> n \<le> 57 then n - 48
      else if 97 \<le> n \<and> n \<le> 102 then n - 87
      else if 65 \<le> n \<and> n \<le> 70 then n - 55
      else 0)"

text \<open>
  \<open>parseInt(s, 16)\<close> on a string of hexadecimal digits, \<open>Number(s)\<close> on a string of decimal
  digits, and \<open>parseInt(s, 10)\<close>, which reads the longest prefix of decimal digits (so that
  \<open>parseInt('50%', 10)\<close> is 50). The program calls them on such strings only.
\<close>

definition parseInt16 :: "string \<Rightarrow> int" where
  "parseInt16 s = foldl (\<lambda>acc c. 16 * acc + digitValue c) 0 s"

definition Number :: "string \<Rightarrow> int" where
  "Number s = foldl (\<lambda>acc c. 10 * acc + digitValue c) 0 s"

definition parseInt10 :: "string \<Rightarrow> int" where
  "parseInt10 s = Number (takeWhile isDigit s)"

text \<open>\<open>Math.round\<close> rounds to the nearest integer, a half towards plus infinity.\<close>

definition Math_round :: "real \<Rightarrow> int" where
  "Math_round x = \<lfloor>x + 1 / 2\<rfloor>"

text \<open>
  \<open>/^#?((?:[0-9a-f]{3}){1,2})$/i\<close>: an optional \<open>#\<close>, then exactly 3 or 6 hexadecimal
  digits of either case, up to the end of the string. The result is the capture group.
\<close>

definition hexMatch :: "string \<Rightarrow> string option" where
  "hexMatch s =
     (let body = (if s \<noteq> [] \<and> hd s = CHR ''#'' then tl s else s) in
      if (length body = 3 \<or> length body = 6) \<and> list_all isHexDigit body
      then Some body else None)"

text \<open>
  \<open>/^rgb\(\s*(\d{1,3}%?),\s*(\d{1,3}%?),\s*(\d{1,3}%?)\s*\)$/i\<close>, read from left to right.
  The expression never has a choice: a digit is neither \<open>%\<close>, \<open>,\<close> nor white space, so each
  component is the whole run of digits (1 to 3 of them) with the \<open>%\<close> that may follow.
\<close>

fun rgbPrefix :: "string \<Rightarrow> string option" where
  "rgbPrefix (c1 # c2 # c3 # c4 # rest) =
     (if (c1 = CHR ''r'' \<or> c1 = CHR ''R'') \<and> (c2 = CHR ''g'' \<or> c2 = CHR ''G'')
         \<and> (c3 = CHR ''b'' \<or> c3 = CHR ''B'') \<and> c4 = CHR ''(''
      then Some rest else None)"
| "rgbPrefix _ = None"

definition component :: "string \<Rightarrow> (string \<times> string) option" where
  "component s =
     (let ds = takeWhile isDigit s; rest = dropWhile isDigit s in
      if 1 \<le> length ds \<and> length ds \<le> 3
      then (if rest \<noteq> [] \<and> hd rest = CHR ''%''
            then Some (ds @ ''%'', tl rest) else Some (ds, rest))
      else None)"

definition comma :: "string \<Rightarrow> string option" where
  "comma s = (if s \<noteq> [] \<and> hd s = CHR '','' then Some (tl s) else None)"

definition rgbMatch :: "string \<Rightarrow> (string \<times> string \<times> string) option" where
  "rgbMatch s =
     (case rgbPrefix s of None \<Rightarrow> None | Some s1 \<Rightarrow>
      (case component (dropWhile isSpace s1) of None \<Rightarrow> None | Some (c1, s2) \<Rightarrow>
      (case comma s2 of None \<Rightarrow> None | Some s3 \<Rightarrow>
      (case component (dropWhile isSpace s3) of None \<Rightarrow> None | Some (c2, s4) \<Rightarrow>
      (case comma s4 of None \<Rightarrow> None | Some s5 \<Rightarrow>
      (case component (dropWhile isSpace s5) of None \<Rightarrow> None | Some (c3, s6) \<Rightarrow>
       if dropWhile isSpace s6 = '')'' then Some (c1, c2, c3) else None))))))"

section \<open>parseComponentValue, rgbToHex, leadingZero\<close>

definition parseComponentValue :: "string \<Rightarrow> int" where
  "parseComponentValue string =
     (if string \<noteq> [] \<and> last string = CHR ''%''
      then Math_round (of_int (parseInt10 string) * 255 / 100)
      else Number string)"

definition hexChar :: "nat \<Rightarrow> char" where
  "hexChar d = ''0123456789abcdef'' ! d"

text \<open>
  \<open>n.toString(16)\<close> on an integer: lower-case digits, no leading zero, a minus sign in
  front of the digits of a negative number.
\<close>

fun natToString16 :: "nat \<Rightarrow> string" where
  "natToString16 n =
     (if n < 16 then [hexChar n] else natToString16 (n div 16) @ [hexChar (n mod 16)])"

definition toString16 :: "int \<Rightarrow> string" where
  "toString16 n = (if n < 0 then CHR ''-'' # natToString16 (nat (- n)) else natToString16 (nat n))"

definition leadingZero :: "string \<Rightarrow> string" where
  "leadingZero v = (if length v = 1 then CHR ''0'' # v else v)"

definition rgbToHex :: "RGB \<Rightarrow> string" where
  "rgbToHex t =
     CHR ''#'' # leadingZero (toString16 (r t)) @ leadingZero (toString16 (g t))
       @ leadingZero (toString16 (b t))"

section \<open>The table of standard colours and parseColor\<close>

definition STANDARD_COLORS :: "(string \<times> string) list" where
  "STANDARD_COLORS =
     [(''aqua'', ''#0ff''), (''black'', ''#000''), (''blue'', ''#00f''),
      (''fuchsia'', ''#f0f''), (''gray'', ''#808080''), (''green'', ''#008000''),
      (''lime'', ''#0f0''), (''maroon'', ''#800000''), (''navy'', ''#000080''),
      (''olive'', ''#808000''), (''orange'', ''#ffa500''), (''purple'', ''#800080''),
      (''red'', ''#f00''), (''silver'', ''#c0c0c0''), (''teal'', ''#008080''),
      (''white'', ''#fff''), (''yellow'', ''#ff0'')]"

text \<open>
  \<open>STANDARD_COLORS\<close> is an object literal, so its prototype is \<open>Object.prototype\<close>, and
  both \<open>source in STANDARD_COLORS\<close> and \<open>STANDARD_COLORS[source]\<close> follow the prototype
  chain. These are the properties of the built-in \<open>Object.prototype\<close> (ECMAScript 5.1,
  15.2.4, and Annex B of ECMAScript 2015): functions, except for the accessor
  \<open>__proto__\<close>, whose value on \<open>STANDARD_COLORS\<close> is \<open>Object.prototype\<close> itself.
\<close>

definition Object_prototype :: "(string \<times> jsvalue) list" where
  "Object_prototype =
     [(''constructor'', Function), (''toString'', Function), (''toLocaleString'', Function),
      (''valueOf'', Function), (''hasOwnProperty'', Function), (''isPrototypeOf'', Function),
      (''propertyIsEnumerable'', Function), (''__defineGetter__'', Function),
      (''__defineSetter__'', Function), (''__lookupGetter__'', Function),
      (''__lookupSetter__'', Function), (''__proto__'', Obj ObjectPrototype)]"

text \<open>
  \<open>STANDARD_COLORS_get s\<close> is \<open>None\<close> when \<open>s in STANDARD_COLORS\<close> is false, and
  \<open>Some (STANDARD_COLORS[s])\<close> otherwise.
\<close>

definition STANDARD_COLORS_get :: "string \<Rightarrow> jsvalue option" where
  "STANDARD_COLORS_get s =
     (case map_of STANDARD_COLORS s of
        Some hex \<Rightarrow> Some (Str hex)
      | None \<Rightarrow> map_of Object_prototype s)"

lemma STANDARD_COLORS_get_cases:
  assumes "STANDARD_COLORS_get s = Some v"
  shows "v \<in> {Function, Obj ObjectPrototype} \<or> (\<exists>h. v = Str (CHR ''#'' # h))"
proof (cases "map_of STANDARD_COLORS s")
  case None
  with assms have "map_of Object_prototype s = Some v"
    by (simp add: STANDARD_COLORS_get_def)
  then have "(s, v) \<in> set Object_prototype"
    by (rule map_of_SomeD)
  then show ?thesis
    by (auto simp: Object_prototype_def)
next
  case (Some hex)
  with assms have v: "v = Str hex"
    by (simp add: STANDARD_COLORS_get_def)
  from Some have "(s, hex) \<in> set STANDARD_COLORS"
    by (rule map_of_SomeD)
  then have "\<exists>h. hex = CHR ''#'' # h"
    by (auto simp: STANDARD_COLORS_def)
  with v show ?thesis by blast
qed

lemma STANDARD_COLORS_get_hash [simp]: "STANDARD_COLORS_get (CHR ''#'' # h) = None"
proof (cases "STANDARD_COLORS_get (CHR ''#'' # h)")
  case None
  then show ?thesis .
next
  case (Some v)
  have "map_of STANDARD_COLORS (CHR ''#'' # h) = None"
    by (rule map_of_eq_None_iff [THEN iffD2]) (auto simp: STANDARD_COLORS_def)
  moreover have "map_of Object_prototype (CHR ''#'' # h) = None"
    by (rule map_of_eq_None_iff [THEN iffD2]) (auto simp: Object_prototype_def)
  ultimately show ?thesis
    by (simp add: STANDARD_COLORS_get_def)
qed

function parseColor :: "jsvalue \<Rightarrow> error + jsobject" where
  "parseColor (Obj ob) = Inr ob"
| "parseColor Function = Inl (TypeError MatchNotAFunction)"
| "parseColor (Str s) =
     (case STANDARD_COLORS_get s of
        Some v \<Rightarrow> parseColor v
      | None \<Rightarrow>
         (case hexMatch s of
            Some h \<Rightarrow>
              (let hs = (if length h = 3
                          then [[h ! 0, h ! 0], [h ! 1, h ! 1], [h ! 2, h ! 2]]
                          else [take 2 h, take 2 (drop 2 h), take 2 (drop 4 h)])
               in Inr (Rgb \<lparr>r = parseInt16 (hs ! 0), g = parseInt16 (hs ! 1),
                             b = parseInt16 (hs ! 2)\<rparr>))
          | None \<Rightarrow>
             (case rgbMatch s of
                Some (c1, c2, c3) \<Rightarrow>
                  Inr (Rgb \<lparr>r = parseComponentValue c1, g = parseComponentValue c2,
                            b = parseComponentValue c3\<rparr>)
              | None \<Rightarrow> Inl (InvalidColorFormat s))))"
  by pat_completeness auto
termination
proof (relation "measure (\<lambda>v. case v of Str s \<Rightarrow> (case STANDARD_COLORS_get s of Some _ \<Rightarrow> 1 | None \<Rightarrow> 0) | _ \<Rightarrow> 0)")
  show "wf (measure (\<lambda>v. case v of Str s \<Rightarrow> (case STANDARD_COLORS_get s of Some _ \<Rightarrow> 1 | None \<Rightarrow> 0) | _ \<Rightarrow> (0::nat)))"
    by simp
next
  fix s v
  assume "STANDARD_COLORS_get s = Some v"
  then show "(v, Str s) \<in> measure (\<lambda>v. case v of Str s \<Rightarrow> (case STANDARD_COLORS_get s of Some _ \<Rightarrow> 1 | None \<Rightarrow> 0) | _ \<Rightarrow> (0::nat))"
    using STANDARD_COLORS_get_cases [of s v] by auto
qed

lemmas parseColor_Str = parseColor.simps(3)

declare parseColor.simps(3) [simp del]

section \<open>nearestColor\<close>

text \<open>
  The sum \<open>Math.pow(needle.r - rgb.r, 2) + ...\<close>. Reading a property of \<open>null\<close> raises
  a \<open>TypeError\<close>; \<open>Object.prototype\<close> has no \<open>r\<close>, \<open>g\<close> or \<open>b\<close>, so the
  differences are \<open>NaN\<close> and so is the sum: the result \<open>Inr None\<close>. On two RGB objects
  the sum is written in exact integer arithmetic, which is what the code computes as long
  as both are in \<open>exactRange\<close> (below).
\<close>

fun distanceSq :: "jsobject \<Rightarrow> jsobject \<Rightarrow> error + int option" where
  "distanceSq Null _ = Inl (TypeError PropertyOfNull)"
| "distanceSq _ Null = Inl (TypeError PropertyOfNull)"
| "distanceSq (Rgb needle) (Rgb c) =
     Inr (Some ((r needle - r c)\<^sup>2 + (g needle - g c)\<^sup>2 + (b needle - b c)\<^sup>2))"
| "distanceSq _ _ = Inr None"

text \<open>
  The squared Euclidean distance of the specification, between two RGB triples; on RGB
  objects \<open>distanceSq\<close> is this number (lemma \<open>distanceSq_Rgb\<close>).
\<close>

definition squaredDistance :: "RGB \<Rightarrow> RGB \<Rightarrow> int" where
  "squaredDistance q t = (r q - r t)\<^sup>2 + (g q - g t)\<^sup>2 + (b q - b t)\<^sup>2"

text \<open>
  The RGB objects on which the distance is computed without rounding: with components of
  absolute value at most \<open>2^24\<close> a difference is at most \<open>2^25\<close>, its square at most
  \<open>2^50\<close> and the sum of three squares at most \<open>3 * 2^50\<close>, below \<open>2^53\<close>, so every
  intermediate value is an integer that a double holds exactly.
\<close>

definition exactRange :: "RGB \<Rightarrow> bool" where
  "exactRange t = (\<bar>r t\<bar> \<le> 2 ^ 24 \<and> \<bar>g t\<bar> \<le> 2 ^ 24 \<and> \<bar>b t\<bar> \<le> 2 ^ 24)"

text \<open>
  The loop over \<open>colors\<close>. Its state is the pair \<open>(minDistanceSq, value)\<close>; \<open>None\<close> is the
  initial state \<open>(Infinity, undefined)\<close>, the two variables being assigned together only.
  \<open>distanceSq < minDistanceSq\<close> is false on \<open>NaN\<close> and true of every number against
  \<open>Infinity\<close>.
\<close>

fun scan :: "jsobject \<Rightarrow> ColorSpec list \<Rightarrow> (int \<times> ColorSpec) option
    \<Rightarrow> error + (int \<times> ColorSpec) option" where
  "scan needle [] st = Inr st"
| "scan needle (c # cs) st =
     (case distanceSq needle (rgb c) of
        Inl e \<Rightarrow> Inl e
      | Inr None \<Rightarrow> scan needle cs st
      | Inr (Some d) \<Rightarrow>
          (case st of
             None \<Rightarrow> scan needle cs (Some (d, c))
           | Some (minDistanceSq, v) \<Rightarrow>
               if d < minDistanceSq then scan needle cs (Some (d, c)) else scan needle cs st))"

text \<open>A property \<open>name\<close> is truthy when it is present and not the empty string.\<close>

definition truthy :: "string option \<Rightarrow> string option" where
  "truthy nm = (case nm of None \<Rightarrow> None | Some n \<Rightarrow> if n = [] then None else Some n)"

section \<open>createColorSpec and mapColors\<close>

text \<open>
  What a palette may hold on input: a string, an RGB object, or a \<open>ColorSpec\<close> (when lists
  of colours are concatenated).
\<close>

datatype input = IStr string | IRgb RGB | ISpec ColorSpec

function createColorSpec :: "input \<Rightarrow> string option \<Rightarrow> error + ColorSpec" where
  "createColorSpec (IStr s) nm =
     (case parseColor (Str s) of
        Inl e \<Rightarrow> Inl e
      | Inr ob \<Rightarrow> Inr \<lparr>name = truthy nm, source = s, rgb = ob\<rparr>)"
| "createColorSpec (ISpec c) nm =
     (if source c \<noteq> [] then createColorSpec (IStr (source c)) (name c)
      else Inl (TypeError ToStringOfUndefined))"
| "createColorSpec (IRgb t) nm = Inr \<lparr>name = truthy nm, source = rgbToHex t, rgb = Rgb t\<rparr>"
  by pat_completeness auto
termination
  by (relation "measure (\<lambda>(i, nm). case i of ISpec _ \<Rightarrow> 1 | _ \<Rightarrow> 0)") auto

text \<open>\<open>Array.prototype.map\<close> with a callback that may throw: the first error ends the map.\<close>

fun mapE :: "('a \<Rightarrow> error + 'b) \<Rightarrow> 'a list \<Rightarrow> error + 'b list" where
  "mapE f [] = Inr []"
| "mapE f (x # xs) =
     (case f x of
        Inl e \<Rightarrow> Inl e
      | Inr y \<Rightarrow> (case mapE f xs of Inl e \<Rightarrow> Inl e | Inr ys \<Rightarrow> Inr (y # ys)))"

text \<open>
  The argument of \<open>mapColors\<close>: an array, or an object given by its own enumerable
  properties in the order of \<open>Object.keys\<close>.
\<close>

datatype availableColors = ColorArray "input list" | ColorObject "(string \<times> input) list"

fun mapColors :: "availableColors \<Rightarrow> error + ColorSpec list" where
  "mapColors (ColorArray colors) = mapE (\<lambda>color. createColorSpec color None) colors"
| "mapColors (ColorObject colors) = mapE (\<lambda>(nm, color). createColorSpec color (Some nm)) colors"

definition DEFAULT_COLORS :: "ColorSpec list" where
  "DEFAULT_COLORS =
     (case mapColors (ColorArray (map IStr
        [''#f00'', ''#f80'', ''#ff0'', ''#0f0'', ''#00f'', ''#008'', ''#808''])) of
        Inr cs \<Rightarrow> cs | Inl e \<Rightarrow> [])"

text \<open>
  \<open>nearestColor(needle, colors)\<close>; \<open>colors\<close> is \<open>None\<close> when the argument is omitted. An
  array is truthy also when it is empty, so only an omitted argument takes the default.
\<close>

definition nearestColor :: "jsvalue \<Rightarrow> ColorSpec list option \<Rightarrow> error + result" where
  "nearestColor needle colors =
     (case parseColor needle of
        Inl e \<Rightarrow> Inl e
      | Inr Null \<Rightarrow> Inr ResultNull
      | Inr ob \<Rightarrow>
          (case scan ob (case colors of None \<Rightarrow> DEFAULT_COLORS | Some cs \<Rightarrow> cs) None of
             Inl e \<Rightarrow> Inl e
           | Inr None \<Rightarrow> Inl (TypeError ValueUndefined)
           | Inr (Some (minDistanceSq, v)) \<Rightarrow>
               (case truthy (name v) of
                  Some n \<Rightarrow>
                    Inr (ResultMatch \<lparr>ColorMatch.name = n, value = source v,
                          ColorMatch.rgb = rgb v, distance = sqrt (of_int minDistanceSq)\<rparr>)
                | None \<Rightarrow> Inr (ResultSource (source v)))))"

section \<open>The older variant of mapColors\<close>

text \<open>
  The file \<open>src/nearestColor.js\<close> holds an older variant of the library, which has
  neither \<open>createColorSpec\<close> nor \<open>matcher.or\<close>. Its \<open>parseColor\<close> takes strings only:
  there is no test of \<open>typeof source\<close>, so on a value that is not a string the call
  \<open>source.match(...)\<close> raises a \<open>TypeError\<close> (\<open>source in STANDARD_COLORS\<close> is false of an
  object or a function, whose property key is a string such as \<open>[object Object]\<close>); the
  \<open>#\<close> of a hexadecimal source is required, \<open>/^#((?:[0-9a-f]{3}){1,2})$/i\<close>; and a source
  that matches nothing gives \<open>null\<close>, not an exception. The table and the expression for
  \<open>rgb(...)\<close> are those of version 0.4.4.
\<close>

definition hexMatch_old :: "string \<Rightarrow> string option" where
  "hexMatch_old s =
     (if s \<noteq> [] \<and> hd s = CHR ''#'' \<and> (length (tl s) = 3 \<or> length (tl s) = 6)
         \<and> list_all isHexDigit (tl s)
      then Some (tl s) else None)"

function parseColor_old :: "jsvalue \<Rightarrow> error + jsobject" where
  "parseColor_old (Obj ob) = Inl (TypeError MatchNotAFunction)"
| "parseColor_old Function = Inl (TypeError MatchNotAFunction)"
| "parseColor_old (Str s) =
     (case STANDARD_COLORS_get s of
        Some v \<Rightarrow> parseColor_old v
      | None \<Rightarrow>
         (case hexMatch_old s of
            Some h \<Rightarrow>
              (let hs = (if length h = 3
                          then [[h ! 0, h ! 0], [h ! 1, h ! 1], [h ! 2, h ! 2]]
                          else [take 2 h, take 2 (drop 2 h), take 2 (drop 4 h)])
               in Inr (Rgb \<lparr>r = parseInt16 (hs ! 0), g = parseInt16 (hs ! 1),
                             b = parseInt16 (hs ! 2)\<rparr>))
          | None \<Rightarrow>
             (case rgbMatch s of
                Some (c1, c2, c3) \<Rightarrow>
                  Inr (Rgb \<lparr>r = parseComponentValue c1, g = parseComponentValue c2,
                            b = parseComponentValue c3\<rparr>)
              | None \<Rightarrow> Inr Null)))"
  by pat_completeness auto
termination
proof (relation "measure (\<lambda>v. case v of Str s \<Rightarrow> (case STANDARD_COLORS_get s of Some _ \<Rightarrow> 1 | None \<Rightarrow> 0) | _ \<Rightarrow> 0)")
  show "wf (measure (\<lambda>v. case v of Str s \<Rightarrow> (case STANDARD_COLORS_get s of Some _ \<Rightarrow> 1 | None \<Rightarrow> 0) | _ \<Rightarrow> (0::nat)))"
    by simp
next
  fix s v
  assume "STANDARD_COLORS_get s = Some v"
  then show "(v, Str s) \<in> measure (\<lambda>v. case v of Str s \<Rightarrow> (case STANDARD_COLORS_get s of Some _ \<Rightarrow> 1 | None \<Rightarrow> 0) | _ \<Rightarrow> (0::nat))"
    using STANDARD_COLORS_get_cases [of s v] by auto
qed

lemmas parseColor_old_Str = parseColor_old.simps(3)

declare parseColor_old.simps(3) [simp del]

text \<open>
  The callback that the older \<open>mapColors\<close> applies to the elements of an array:
  \<open>if (color.rgb) return color; return {source: color, rgb: parseColor(color)}\<close>. An
  element with an RGB object (or any other object) as \<open>rgb\<close> is returned as it is. A
  string has no property \<open>rgb\<close> and is parsed. An RGB object, and an element whose \<open>rgb\<close>
  is \<open>null\<close>, are handed to \<open>parseColor\<close>, which raises the \<open>TypeError\<close> on them.
\<close>

fun arrayElement_old :: "input \<Rightarrow> error + ColorSpec" where
  "arrayElement_old (ISpec c) =
     (if rgb c \<noteq> Null then Inr c else Inl (TypeError MatchNotAFunction))"
| "arrayElement_old (IStr s) =
     (case parseColor_old (Str s) of
        Inl e \<Rightarrow> Inl e
      | Inr ob \<Rightarrow> Inr \<lparr>name = None, source = s, rgb = ob\<rparr>)"
| "arrayElement_old (IRgb t) = Inl (TypeError MatchNotAFunction)"

text \<open>
  For an object the loop \<open>for (var name in colors)\<close> builds
  \<open>{name: name, source: colors[name], rgb: parseColor(colors[name])}\<close>, whatever the name.
\<close>

fun mapColors_old :: "availableColors \<Rightarrow> error + ColorSpec list" where
  "mapColors_old (ColorArray colors) = mapE arrayElement_old colors"
| "mapColors_old (ColorObject colors) =
     mapE (\<lambda>(nm, color). case color of
             IStr s \<Rightarrow> (case parseColor_old (Str s) of
                          Inl e \<Rightarrow> Inl e
                        | Inr ob \<Rightarrow> Inr \<lparr>name = Some nm, source = s, rgb = ob\<rparr>)
           | _ \<Rightarrow> Inl (TypeError MatchNotAFunction)) colors"

section \<open>nearestColor.from and matcher.or\<close>

text \<open>
  A matcher is the closure returned by \<open>from\<close>: it holds the variable \<open>colors\<close>. Calling it
  is \<open>matcher_call\<close>; its properties \<open>from\<close> and \<open>or\<close> are \<open>matcher_from\<close> and
  \<open>matcher_or\<close>.
\<close>

datatype matcher = Matcher (colors: "ColorSpec list")

definition "from" :: "availableColors \<Rightarrow> error + matcher" where
  "from availableColors =
     (case mapColors availableColors of Inl e \<Rightarrow> Inl e | Inr cs \<Rightarrow> Inr (Matcher cs))"

definition matcher_call :: "matcher \<Rightarrow> jsvalue \<Rightarrow> error + result" where
  "matcher_call m hex = nearestColor hex (Some (colors m))"

definition matcher_from :: "matcher \<Rightarrow> availableColors \<Rightarrow> error + matcher" where
  "matcher_from m availableColors = from availableColors"

definition matcher_or :: "matcher \<Rightarrow> availableColors \<Rightarrow> error + matcher" where
  "matcher_or m alternateColors =
     (case mapColors alternateColors of
        Inl e \<Rightarrow> Inl e
      | Inr alt \<Rightarrow> from (ColorArray (map ISpec (colors m @ alt))))"

section \<open>Palette inputs within the documented range\<close>

text \<open>
  The documentation gives the components of an RGB object the range 0 to 255. \<open>inRange\<close>
  says that an RGB object keeps to it (its components are integers by the type \<open>RGB\<close>),
  \<open>inputInRange\<close> that a palette element does when it is an RGB object, and \<open>inputs\<close>
  lists the elements of a palette. A \<open>ColorSpec\<close> is \<open>consistent\<close> when its RGB object is
  what its source parses to (the invariant of the specification's data model).
\<close>

definition inRange :: "RGB \<Rightarrow> bool" where
  "inRange t = (0 \<le> r t \<and> r t \<le> 255 \<and> 0 \<le> g t \<and> g t \<le> 255 \<and> 0 \<le> b t \<and> b t \<le> 255)"

fun inputInRange :: "input \<Rightarrow> bool" where
  "inputInRange (IRgb t) = inRange t"
| "inputInRange _ = True"

fun inputs :: "availableColors \<Rightarrow> input list" where
  "inputs (ColorArray xs) = xs"
| "inputs (ColorObject kvs) = map snd kvs"

definition consistent :: "ColorSpec \<Rightarrow> bool" where
  "consistent c = (parseColor (Str (source c)) = Inr (rgb c))"

section \<open>Facts for evaluating the program on concrete inputs\<close>

lemmas char_defs = isDigit_def isHexDigit_def isSpace_def digitValue_def hexChar_def

lemmas parse_defs =
  STANDARD_COLORS_get_def STANDARD_COLORS_def Object_prototype_def hexMatch_def
  rgbMatch_def component_def comma_def parseComponentValue_def parseInt10_def Number_def
  Math_round_def parseInt16_def char_defs parseColor_Str

lemmas parse_old_defs = parseColor_old_Str hexMatch_old_def

lemmas render_defs = rgbToHex_def leadingZero_def toString16_def

lemmas match_defs =
  nearestColor_def DEFAULT_COLORS_def truthy_def from_def matcher_call_def matcher_from_def
  matcher_or_def

section \<open>Searching an empty palette\<close>

lemma scan_Nil_result:
  "parseColor needle = Inr ob \<Longrightarrow> ob \<noteq> Null \<Longrightarrow>
   nearestColor needle (Some []) = Inl (TypeError ValueUndefined)"
  by (cases ob) (simp_all add: nearestColor_def)

text \<open>
  C6. A search over the empty array fails: when the needle parses to an object other than
  \<open>null\<close>, the loop body never runs, \<open>value\<close> is still undefined when \<open>value.name\<close> is
  read, and the call ends in that \<open>TypeError\<close> (the error the specification calls
  EmptyPalette). No call on an empty array returns a source string or a match: the only
  value a call can return is the \<open>null\<close> of the early return for a \<open>null\<close> needle.
\<close>

theorem empty_palette_fails:
  "(\<forall>ob. parseColor needle = Inr ob \<and> ob \<noteq> Null
      \<longrightarrow> nearestColor needle (Some []) = Inl (TypeError ValueUndefined))
   \<and> (\<forall>v. nearestColor needle (Some []) = Inr v
      \<longrightarrow> v = ResultNull \<and> parseColor needle = Inr (Null))"
proof (intro conjI allI impI)
  fix ob
  assume "parseColor needle = Inr ob \<and> ob \<noteq> Null"
  then show "nearestColor needle (Some []) = Inl (TypeError ValueUndefined)"
    by (simp add: scan_Nil_result)
next
  fix v
  assume ret: "nearestColor needle (Some []) = Inr v"
  show "v = ResultNull"
  proof (cases "parseColor needle")
    case (Inl e)
    with ret show ?thesis by (simp add: nearestColor_def)
  next
    case (Inr ob)
    with ret show ?thesis by (cases ob) (simp_all add: nearestColor_def)
  qed
  show "parseColor needle = Inr Null"
  proof (cases "parseColor needle")
    case (Inl e)
    with ret show ?thesis by (simp add: nearestColor_def)
  next
    case (Inr ob)
    with ret show ?thesis by (cases ob) (simp_all add: nearestColor_def)
  qed
qed

theorem empty_palette_fails_witness:
  "parseColor (Str ''#f00'') = Inr (Rgb \<lparr>r = 255, g = 0, b = 0\<rparr>)
   \<and> nearestColor (Str ''#f00'') (Some []) = Inl (TypeError ValueUndefined)
   \<and> nearestColor (Obj Null) (Some []) = Inr ResultNull
   \<and> parseColor (Obj Null) = Inr Null"
proof -
  have p: "parseColor (Str ''#f00'') = Inr (Rgb \<lparr>r = 255, g = 0, b = 0\<rparr>)"
    by (simp add: parse_defs)
  have n: "nearestColor (Obj Null) (Some []) = Inr ResultNull"
    by (simp add: nearestColor_def)
  from empty_palette_fails [of "Str ''#f00''"] p
  have "nearestColor (Str ''#f00'') (Some []) = Inl (TypeError ValueUndefined)"
    by simp
  moreover from empty_palette_fails [of "Obj Null"] n
  have "parseColor (Obj Null) = Inr Null"
    by simp
  ultimately show ?thesis using p n by simp
qed

section \<open>Hexadecimal sources\<close>

text \<open>No key of the table, own or inherited, consists of hexadecimal digits only.\<close>

lemma in_table_cases:
  assumes "STANDARD_COLORS_get s = Some v"
  shows "s \<in> set (map fst STANDARD_COLORS) \<or> s \<in> set (map fst Object_prototype)"
proof (cases "map_of STANDARD_COLORS s")
  case None
  with assms have "map_of Object_prototype s = Some v"
    by (simp add: STANDARD_COLORS_get_def)
  then have "(s, v) \<in> set Object_prototype" by (rule map_of_SomeD)
  then have "fst (s, v) \<in> fst ` set Object_prototype" by (rule imageI)
  then show ?thesis by simp
next
  case (Some h)
  then have "(s, h) \<in> set STANDARD_COLORS" by (rule map_of_SomeD)
  then have "fst (s, h) \<in> fst ` set STANDARD_COLORS" by (rule imageI)
  then show ?thesis by simp
qed

lemma hex_not_in_table:
  assumes "list_all isHexDigit s"
  shows "STANDARD_COLORS_get s = None"
proof (rule ccontr)
  assume "STANDARD_COLORS_get s \<noteq> None"
  then obtain v where "STANDARD_COLORS_get s = Some v" by blast
  then have "s \<in> set (map fst STANDARD_COLORS) \<or> s \<in> set (map fst Object_prototype)"
    by (rule in_table_cases)
  then have "\<not> list_all isHexDigit s"
    by (auto simp: STANDARD_COLORS_def Object_prototype_def isHexDigit_def)
  with assms show False by simp
qed

lemma hexDigit_not_hash: "isHexDigit c \<Longrightarrow> c \<noteq> CHR ''#''"
  by (auto simp: isHexDigit_def)

lemma hexMatch3:
  assumes "isHexDigit d1" "isHexDigit d2" "isHexDigit d3"
  shows "hexMatch [d1, d2, d3] = Some [d1, d2, d3]"
    and "hexMatch (CHR ''#'' # [d1, d2, d3]) = Some [d1, d2, d3]"
proof -
  from assms(1) have "d1 \<noteq> CHR ''#''" by (rule hexDigit_not_hash)
  with assms show "hexMatch [d1, d2, d3] = Some [d1, d2, d3]"
    by (simp add: hexMatch_def)
  from assms show "hexMatch (CHR ''#'' # [d1, d2, d3]) = Some [d1, d2, d3]"
    by (simp add: hexMatch_def)
qed

lemma hexMatch6:
  assumes "list_all isHexDigit [d1, d2, d3, d4, d5, d6]"
  shows "hexMatch [d1, d2, d3, d4, d5, d6] = Some [d1, d2, d3, d4, d5, d6]"
    and "hexMatch (CHR ''#'' # [d1, d2, d3, d4, d5, d6]) = Some [d1, d2, d3, d4, d5, d6]"
proof -
  from assms have "isHexDigit d1" by simp
  then have "d1 \<noteq> CHR ''#''" by (rule hexDigit_not_hash)
  with assms show "hexMatch [d1, d2, d3, d4, d5, d6] = Some [d1, d2, d3, d4, d5, d6]"
    by (simp add: hexMatch_def)
  from assms show "hexMatch (CHR ''#'' # [d1, d2, d3, d4, d5, d6]) = Some [d1, d2, d3, d4, d5, d6]"
    by (simp add: hexMatch_def)
qed

lemma parseColor_hex3:
  assumes "isHexDigit d1" "isHexDigit d2" "isHexDigit d3"
  shows "parseColor (Str [d1, d2, d3]) =
      Inr (Rgb \<lparr>r = 17 * digitValue d1, g = 17 * digitValue d2, b = 17 * digitValue d3\<rparr>)"
  using assms by (simp add: parseColor_Str hex_not_in_table hexMatch3 parseInt16_def)

lemma parseColor_hash_hex3:
  assumes "isHexDigit d1" "isHexDigit d2" "isHexDigit d3"
  shows "parseColor (Str (CHR ''#'' # [d1, d2, d3])) =
      Inr (Rgb \<lparr>r = 17 * digitValue d1, g = 17 * digitValue d2, b = 17 * digitValue d3\<rparr>)"
  using assms by (simp add: parseColor_Str hexMatch3 parseInt16_def)

lemma parseColor_hex6:
  assumes "list_all isHexDigit [d1, d2, d3, d4, d5, d6]"
  shows "parseColor (Str [d1, d2, d3, d4, d5, d6]) =
      Inr (Rgb \<lparr>r = 16 * digitValue d1 + digitValue d2, g = 16 * digitValue d3 + digitValue d4,
        b = 16 * digitValue d5 + digitValue d6\<rparr>)"
  using assms hex_not_in_table [OF assms] by (simp add: parseColor_Str hexMatch6 parseInt16_def)

lemma parseColor_hash_hex6:
  assumes "list_all isHexDigit [d1, d2, d3, d4, d5, d6]"
  shows "parseColor (Str (CHR ''#'' # [d1, d2, d3, d4, d5, d6])) =
      Inr (Rgb \<lparr>r = 16 * digitValue d1 + digitValue d2, g = 16 * digitValue d3 + digitValue d4,
        b = 16 * digitValue d5 + digitValue d6\<rparr>)"
  using assms by (simp add: parseColor_Str hexMatch6 parseInt16_def)


text \<open>
  C3. For hexadecimal digits \<open>d1 d2 d3\<close> of either case, the three-digit source parses to
  the same value as the six-digit source with every digit doubled, and the leading \<open>#\<close>
  makes no difference to either: each channel is the byte \<open>16 * d + d\<close>.
\<close>

theorem hex3_equals_hex6:
  assumes "isHexDigit d1" and "isHexDigit d2" and "isHexDigit d3"
  shows "parseColor (Str (CHR ''#'' # [d1, d2, d3]))
           = parseColor (Str (CHR ''#'' # [d1, d1, d2, d2, d3, d3]))
       \<and> parseColor (Str [d1, d2, d3]) = parseColor (Str (CHR ''#'' # [d1, d2, d3]))
       \<and> parseColor (Str [d1, d1, d2, d2, d3, d3]) = parseColor (Str (CHR ''#'' # [d1, d2, d3]))
       \<and> parseColor (Str (CHR ''#'' # [d1, d2, d3]))
           = Inr (Rgb \<lparr>r = 16 * digitValue d1 + digitValue d1,
                        g = 16 * digitValue d2 + digitValue d2,
                        b = 16 * digitValue d3 + digitValue d3\<rparr>)"
proof -
  from assms have six: "list_all isHexDigit [d1, d1, d2, d2, d3, d3]" by simp
  show ?thesis
    using assms
    by (simp add: parseColor_hex3 parseColor_hash_hex3 parseColor_hex6 [OF six] parseColor_hash_hex6 [OF six])
qed

theorem hex3_equals_hex6_witness:
  "isHexDigit CHR ''a'' \<and> isHexDigit CHR ''B'' \<and> isHexDigit CHR ''7''
   \<and> parseColor (Str ''#aB7'') = parseColor (Str ''#aaBB77'')
   \<and> parseColor (Str ''aB7'') = parseColor (Str ''#aB7'')
   \<and> parseColor (Str ''aaBB77'') = parseColor (Str ''#aB7'')
   \<and> parseColor (Str ''#aB7'') = Inr (Rgb \<lparr>r = 170, g = 187, b = 119\<rparr>)"
proof -
  have h: "isHexDigit CHR ''a''" "isHexDigit CHR ''B''" "isHexDigit CHR ''7''"
    by (simp_all add: isHexDigit_def)
  have v: "16 * digitValue CHR ''a'' + digitValue CHR ''a'' = 170"
    "16 * digitValue CHR ''B'' + digitValue CHR ''B'' = 187"
    "16 * digitValue CHR ''7'' + digitValue CHR ''7'' = 119"
    by (simp_all add: digitValue_def)
  from hex3_equals_hex6 [OF h] show ?thesis
    unfolding v using h by blast
qed

section \<open>Rendering an RGB object and parsing it back\<close>

lemma hexChar_digit:
  assumes "k < 16"
  shows "isHexDigit (hexChar k) \<and> digitValue (hexChar k) = int k \<and> hexChar k \<in> set ''0123456789abcdef''"
proof -
  from assms have "k \<in> {0, 1, 2, 3, 4, 5, 6, 7, 8, 9, 10, 11, 12, 13, 14, 15}"
    by (simp add: insert_iff) arith
  then show ?thesis
    by (auto simp: char_defs)
qed

lemma leadingZero_toString16:
  assumes "0 \<le> n" and "n \<le> 255"
  shows "leadingZero (toString16 n) = [hexChar (nat n div 16), hexChar (nat n mod 16)]"
proof (cases "n < 16")
  case True
  with assms have "nat n div 16 = 0" "nat n mod 16 = nat n" "nat n < 16" by auto
  with assms show ?thesis by (simp add: render_defs hexChar_def)
next
  case False
  with assms have "\<not> nat n < 16" "nat n div 16 < 16" by auto
  with assms show ?thesis by (simp add: render_defs)
qed

lemma rgbToHex_digits:
  assumes "0 \<le> r t" "r t \<le> 255" "0 \<le> g t" "g t \<le> 255" "0 \<le> b t" "b t \<le> 255"
  shows "rgbToHex t = CHR ''#'' #
     [hexChar (nat (r t) div 16), hexChar (nat (r t) mod 16),
      hexChar (nat (g t) div 16), hexChar (nat (g t) mod 16),
      hexChar (nat (b t) div 16), hexChar (nat (b t) mod 16)]"
  using assms by (simp add: rgbToHex_def leadingZero_toString16)

lemma byte_value:
  assumes "0 \<le> n" and "n \<le> 255"
  shows "16 * digitValue (hexChar (nat n div 16)) + digitValue (hexChar (nat n mod 16)) = n"
proof -
  from assms have "nat n div 16 < 16" "nat n mod 16 < 16" by auto
  then have "digitValue (hexChar (nat n div 16)) = int (nat n div 16)"
    "digitValue (hexChar (nat n mod 16)) = int (nat n mod 16)"
    by (simp_all add: hexChar_digit)
  with assms show ?thesis by (simp add: zdiv_int zmod_int)
qed



lemma parseColor_rgbToHex:
  assumes "inRange t"
  shows "parseColor (Str (rgbToHex t)) = Inr (Rgb t)"
proof -
  from assms have rng: "0 \<le> r t" "r t \<le> 255" "0 \<le> g t" "g t \<le> 255" "0 \<le> b t" "b t \<le> 255"
    by (simp_all add: inRange_def)
  let ?ds = "[hexChar (nat (r t) div 16), hexChar (nat (r t) mod 16),
              hexChar (nat (g t) div 16), hexChar (nat (g t) mod 16),
              hexChar (nat (b t) div 16), hexChar (nat (b t) mod 16)]"
  have render: "rgbToHex t = CHR ''#'' # ?ds"
    using rng by (rule rgbToHex_digits)
  from rng have small:
    "nat (r t) div 16 < 16" "nat (r t) mod 16 < 16"
    "nat (g t) div 16 < 16" "nat (g t) mod 16 < 16"
    "nat (b t) div 16 < 16" "nat (b t) mod 16 < 16"
    by auto
  then have hex: "list_all isHexDigit ?ds"
    by (simp add: hexChar_digit)
  have "parseColor (Str (CHR ''#'' # ?ds)) =
      Inr (Rgb \<lparr>r = 16 * digitValue (hexChar (nat (r t) div 16)) + digitValue (hexChar (nat (r t) mod 16)),
                g = 16 * digitValue (hexChar (nat (g t) div 16)) + digitValue (hexChar (nat (g t) mod 16)),
                b = 16 * digitValue (hexChar (nat (b t) div 16)) + digitValue (hexChar (nat (b t) mod 16))\<rparr>)"
    using hex by (rule parseColor_hash_hex6)
  also have "\<dots> = Inr (Rgb t)"
    using rng by (simp add: byte_value)
  finally show ?thesis
    by (simp only: render)
qed

text \<open>
  C8. An RGB object with the three components in 0..255 is rendered by \<open>rgbToHex\<close> as
  \<open>#\<close> and, for each channel on its own, two lower-case hexadecimal digits (the high and
  the low half of the byte, so a leading zero where the channel is below 16); parsing that
  string gives the RGB object back. \<open>{r: 255, g: 128, b: 0}\<close> is rendered as \<open>#ff8000\<close>.
\<close>

theorem rgbToHex_roundtrip:
  assumes "0 \<le> r t" and "r t \<le> 255" and "0 \<le> g t" and "g t \<le> 255"
    and "0 \<le> b t" and "b t \<le> 255"
  shows "parseColor (Str (rgbToHex t)) = Inr (Rgb t)
       \<and> rgbToHex t = CHR ''#'' #
           [hexChar (nat (r t) div 16), hexChar (nat (r t) mod 16),
            hexChar (nat (g t) div 16), hexChar (nat (g t) mod 16),
            hexChar (nat (b t) div 16), hexChar (nat (b t) mod 16)]
       \<and> list_all (\<lambda>c. c \<in> set ''0123456789abcdef'') (tl (rgbToHex t))
       \<and> rgbToHex \<lparr>r = 255, g = 128, b = 0\<rparr> = ''#ff8000''"
proof -
  let ?ds = "[hexChar (nat (r t) div 16), hexChar (nat (r t) mod 16),
              hexChar (nat (g t) div 16), hexChar (nat (g t) mod 16),
              hexChar (nat (b t) div 16), hexChar (nat (b t) mod 16)]"
  have render: "rgbToHex t = CHR ''#'' # ?ds"
    using assms by (rule rgbToHex_digits)
  from assms have small:
    "nat (r t) div 16 < 16" "nat (r t) mod 16 < 16"
    "nat (g t) div 16 < 16" "nat (g t) mod 16 < 16"
    "nat (b t) div 16 < 16" "nat (b t) mod 16 < 16"
    by auto
  from small have lower: "list_all (\<lambda>c. c \<in> set ''0123456789abcdef'') ?ds"
    using hexChar_digit by (simp del: set_simps)
  from assms have "inRange t"
    by (simp add: inRange_def)
  then have parse: "parseColor (Str (rgbToHex t)) = Inr (Rgb t)"
    by (rule parseColor_rgbToHex)
  have example: "rgbToHex \<lparr>r = 255, g = 128, b = 0\<rparr> = ''#ff8000''"
    by (simp add: rgbToHex_digits hexChar_def)
  from lower have "list_all (\<lambda>c. c \<in> set ''0123456789abcdef'') (tl (rgbToHex t))"
    by (simp only: render list.sel)
  with parse render example show ?thesis
    by blast
qed

theorem rgbToHex_roundtrip_witness:
  "parseColor (Str (rgbToHex \<lparr>r = 4, g = 251, b = 200\<rparr>))
     = Inr (Rgb \<lparr>r = 4, g = 251, b = 200\<rparr>)
   \<and> rgbToHex \<lparr>r = 4, g = 251, b = 200\<rparr> = ''#04fbc8''"
proof -
  have "parseColor (Str (rgbToHex \<lparr>r = 4, g = 251, b = 200\<rparr>))
     = Inr (Rgb \<lparr>r = 4, g = 251, b = 200\<rparr>)"
    by (rule rgbToHex_roundtrip [THEN conjunct1]) simp_all
  moreover have "rgbToHex \<lparr>r = 4, g = 251, b = 200\<rparr> = ''#04fbc8''"
    by (simp add: rgbToHex_digits hexChar_def)
  ultimately show ?thesis by blast
qed

section \<open>Sources of the form rgb(...)\<close>

lemma digit_not_space: "isDigit c \<Longrightarrow> \<not> isSpace c"
  by (auto simp: isDigit_def isSpace_def)

lemma digit_cases: "isDigit c \<Longrightarrow> c \<noteq> CHR ''%'' \<and> c \<noteq> CHR '','' \<and> c \<noteq> CHR '')''"
  by (auto simp: isDigit_def)

lemma not_digit_simps [simp]:
  "\<not> isDigit CHR '',''" "\<not> isDigit CHR '')''" "\<not> isDigit CHR ''%''" "\<not> isSpace CHR '')''"
  by (simp_all add: isDigit_def isSpace_def)

lemma dropWhile_spaces:
  assumes "list_all isSpace w" and "rest = [] \<or> \<not> isSpace (hd rest)"
  shows "dropWhile isSpace (w @ rest) = rest"
proof -
  from assms(2) have "dropWhile isSpace rest = rest"
    by (cases rest) auto
  with assms(1) show ?thesis
    by (induction w) simp_all
qed

lemma takeWhile_digits:
  assumes "list_all isDigit ds" and "rest = [] \<or> \<not> isDigit (hd rest)"
  shows "takeWhile isDigit (ds @ rest) = ds" and "dropWhile isDigit (ds @ rest) = rest"
proof -
  from assms(2) have "takeWhile isDigit rest = []" "dropWhile isDigit rest = rest"
    by (cases rest; auto)+
  with assms(1) show "takeWhile isDigit (ds @ rest) = ds" "dropWhile isDigit (ds @ rest) = rest"
    by (induction ds) simp_all
qed

lemma component_plain:
  assumes "list_all isDigit ds" and "1 \<le> length ds" and "length ds \<le> 3"
    and "rest = [] \<or> (\<not> isDigit (hd rest) \<and> hd rest \<noteq> CHR ''%'')"
  shows "component (ds @ rest) = Some (ds, rest)"
proof -
  from assms(4) have "rest = [] \<or> \<not> isDigit (hd rest)" by blast
  with assms(1) have "takeWhile isDigit (ds @ rest) = ds" "dropWhile isDigit (ds @ rest) = rest"
    by (rule takeWhile_digits)+
  with assms show ?thesis
    by (auto simp: component_def)
qed

lemma component_percent:
  assumes "list_all isDigit ds" and "1 \<le> length ds" and "length ds \<le> 3"
  shows "component (ds @ CHR ''%'' # rest) = Some (ds @ ''%'', rest)"
proof -
  have "CHR ''%'' # rest = [] \<or> \<not> isDigit (hd (CHR ''%'' # rest))" by simp
  with assms(1) have "takeWhile isDigit (ds @ CHR ''%'' # rest) = ds"
    "dropWhile isDigit (ds @ CHR ''%'' # rest) = CHR ''%'' # rest"
    by (rule takeWhile_digits)+
  with assms show ?thesis
    by (simp add: component_def)
qed

lemma Number_foldl:
  "foldl (\<lambda>acc c. 10 * acc + digitValue c) a ds
     = a * 10 ^ length ds + horner_sum digitValue 10 (rev ds)"
  by (induction ds arbitrary: a) (simp_all add: horner_sum_append algebra_simps)

lemma Number_horner: "Number ds = horner_sum digitValue 10 (rev ds)"
  by (simp add: Number_def Number_foldl)

lemma parseComponentValue_plain:
  assumes "list_all isDigit ds" and "1 \<le> length ds"
  shows "parseComponentValue ds = Number ds"
proof -
  from assms have "ds \<noteq> []" by auto
  with assms(1) have "isDigit (last ds)" by (simp add: list_all_iff)
  then have "last ds \<noteq> CHR ''%''" using digit_cases by blast
  then show ?thesis by (simp add: parseComponentValue_def)
qed

lemma parseComponentValue_percent:
  assumes "list_all isDigit ds"
  shows "parseComponentValue (ds @ ''%'') = round (of_int (Number ds) * 255 / 100 :: real)"
proof -
  have "''%'' = [] \<or> \<not> isDigit (hd ''%'')" by simp
  with assms have "takeWhile isDigit (ds @ ''%'') = ds" by (rule takeWhile_digits)
  then show ?thesis
    by (simp add: parseComponentValue_def parseInt10_def Math_round_def round_def)
qed

lemma space_cases: "isSpace c \<Longrightarrow> \<not> isDigit c \<and> c \<noteq> CHR ''%''"
  by (auto simp: isDigit_def isSpace_def)

lemma component_text:
  assumes "list_all isDigit ds" and "1 \<le> length ds" and "length ds \<le> 3"
    and "rest = [] \<or> (\<not> isDigit (hd rest) \<and> hd rest \<noteq> CHR ''%'')"
  shows "component ((if p then ds @ ''%'' else ds) @ rest) = Some (if p then ds @ ''%'' else ds, rest)"
proof (cases p)
  case True
  with component_percent [OF assms(1-3), of rest] show ?thesis by simp
next
  case False
  with component_plain [OF assms] show ?thesis by simp
qed

lemma spaces_then_text:
  assumes "list_all isSpace w" and "list_all isDigit ds" and "1 \<le> length ds"
  shows "dropWhile isSpace (w @ (if p then ds @ ''%'' else ds) @ rest)
       = (if p then ds @ ''%'' else ds) @ rest"
proof -
  from assms(3) obtain d ds' where ds: "ds = d # ds'" by (cases ds) auto
  with assms(2) have "\<not> isSpace d" by (simp add: digit_not_space)
  with ds have "(if p then ds @ ''%'' else ds) @ rest = []
      \<or> \<not> isSpace (hd ((if p then ds @ ''%'' else ds) @ rest))"
    by simp
  with assms(1) show ?thesis by (rule dropWhile_spaces)
qed

lemma spaces_then_paren:
  assumes "list_all isSpace w"
  shows "dropWhile isSpace (w @ '')'') = '')''"
    and "w @ '')'' = [] \<or> (\<not> isDigit (hd (w @ '')'')) \<and> hd (w @ '')'') \<noteq> CHR ''%'')"
proof -
  show "dropWhile isSpace (w @ '')'') = '')''"
    using assms by (rule dropWhile_spaces) simp
  show "w @ '')'' = [] \<or> (\<not> isDigit (hd (w @ '')'')) \<and> hd (w @ '')'') \<noteq> CHR ''%'')"
    using assms by (cases w) (simp_all add: space_cases)
qed

lemma rgbMatch_text:
  assumes d1: "list_all isDigit ds1" "1 \<le> length ds1" "length ds1 \<le> 3"
    and d2: "list_all isDigit ds2" "1 \<le> length ds2" "length ds2 \<le> 3"
    and d3: "list_all isDigit ds3" "1 \<le> length ds3" "length ds3 \<le> 3"
    and w: "list_all isSpace w1" "list_all isSpace w2" "list_all isSpace w3" "list_all isSpace w4"
  shows "rgbMatch (''rgb('' @ w1 @ (if p1 then ds1 @ ''%'' else ds1) @ '','' @ w2
            @ (if p2 then ds2 @ ''%'' else ds2) @ '','' @ w3
            @ (if p3 then ds3 @ ''%'' else ds3) @ w4 @ '')'')
         = Some (if p1 then ds1 @ ''%'' else ds1, if p2 then ds2 @ ''%'' else ds2,
                 if p3 then ds3 @ ''%'' else ds3)"
proof -
  let ?c1 = "if p1 then ds1 @ ''%'' else ds1"
  let ?c2 = "if p2 then ds2 @ ''%'' else ds2"
  let ?c3 = "if p3 then ds3 @ ''%'' else ds3"
  define t3 where "t3 = w4 @ '')''"
  define t2 where "t2 = w3 @ ?c3 @ t3"
  define t1 where "t1 = w2 @ ?c2 @ CHR '','' # t2"
  have s3: "dropWhile isSpace t3 = '')''"
    and e3: "t3 = [] \<or> (\<not> isDigit (hd t3) \<and> hd t3 \<noteq> CHR ''%'')"
    unfolding t3_def using w(4) by (rule spaces_then_paren)+
  have c3: "component (?c3 @ t3) = Some (?c3, t3)"
    using d3 e3 by (rule component_text)
  have b3: "dropWhile isSpace t2 = ?c3 @ t3"
    unfolding t2_def using w(3) d3(1,2) by (rule spaces_then_text)
  have c2: "component (?c2 @ CHR '','' # t2) = Some (?c2, CHR '','' # t2)"
    using d2 by (rule component_text) simp
  have b2: "dropWhile isSpace t1 = ?c2 @ CHR '','' # t2"
    unfolding t1_def using w(2) d2(1,2) by (rule spaces_then_text)
  have c1: "component (?c1 @ CHR '','' # t1) = Some (?c1, CHR '','' # t1)"
    using d1 by (rule component_text) simp
  have b1: "dropWhile isSpace (w1 @ ?c1 @ CHR '','' # t1) = ?c1 @ CHR '','' # t1"
    using w(1) d1(1,2) by (rule spaces_then_text)
  have "rgbMatch (''rgb('' @ w1 @ ?c1 @ CHR '','' # t1) = Some (?c1, ?c2, ?c3)"
    by (simp only: rgbMatch_def rgbPrefix.simps append_Cons append_Nil b1 c1 b2 c2 b3 c3 s3
        comma_def list.sel option.case prod.case if_True simp_thms list.distinct refl)
  then show ?thesis
    by (simp add: t1_def t2_def t3_def)
qed

lemma rgb_not_in_table: "STANDARD_COLORS_get (''rgb('' @ t) = None"
proof (rule ccontr)
  assume "STANDARD_COLORS_get (''rgb('' @ t) \<noteq> None"
  then obtain v where "STANDARD_COLORS_get (''rgb('' @ t) = Some v" by blast
  then have "''rgb('' @ t \<in> set (map fst STANDARD_COLORS)
      \<or> ''rgb('' @ t \<in> set (map fst Object_prototype)"
    by (rule in_table_cases)
  then show False
    by (simp add: STANDARD_COLORS_def Object_prototype_def)
qed

lemma rgb_not_hex: "hexMatch (''rgb('' @ t) = None"
  by (simp add: hexMatch_def isHexDigit_def)

lemma parseColor_rgb_text:
  assumes d1: "list_all isDigit ds1" "1 \<le> length ds1" "length ds1 \<le> 3"
    and d2: "list_all isDigit ds2" "1 \<le> length ds2" "length ds2 \<le> 3"
    and d3: "list_all isDigit ds3" "1 \<le> length ds3" "length ds3 \<le> 3"
    and w: "list_all isSpace w1" "list_all isSpace w2" "list_all isSpace w3" "list_all isSpace w4"
  shows "parseColor (Str (''rgb('' @ w1 @ (if p1 then ds1 @ ''%'' else ds1) @ '','' @ w2
            @ (if p2 then ds2 @ ''%'' else ds2) @ '','' @ w3
            @ (if p3 then ds3 @ ''%'' else ds3) @ w4 @ '')''))
         = Inr (Rgb \<lparr>r = parseComponentValue (if p1 then ds1 @ ''%'' else ds1),
                      g = parseComponentValue (if p2 then ds2 @ ''%'' else ds2),
                      b = parseComponentValue (if p3 then ds3 @ ''%'' else ds3)\<rparr>)"
  by (simp only: parseColor_Str rgb_not_in_table rgb_not_hex rgbMatch_text [OF assms]
      option.case prod.case)

lemma parseComponentValue_text:
  assumes "list_all isDigit ds" and "1 \<le> length ds"
  shows "parseComponentValue (if p then ds @ ''%'' else ds)
       = (if p then round (of_int (horner_sum digitValue 10 (rev ds)) * 255 / 100 :: real)
          else horner_sum digitValue 10 (rev ds))"
  using assms
  by (simp add: parseComponentValue_plain parseComponentValue_percent Number_horner)

text \<open>
  C4. A source \<open>rgb(c1,c2,c3)\<close>, with white space allowed after the opening parenthesis,
  after each comma and before the closing parenthesis, where every component is 1 to 3
  decimal digits with an optional \<open>%\<close>, parses component by component: plain digits give
  their decimal value as it is (the positional value of the digits; nothing clamps it to
  255, so it ranges up to 999), and digits followed by \<open>%\<close> give \<open>round (v * 255 / 100)\<close>.
  The witness has the sources \<open>rgb(50%,50%,50%)\<close> and \<open>rgb(100%,0%,0%)\<close>.
\<close>

theorem rgb_component_values:
  assumes d1: "list_all isDigit ds1" "1 \<le> length ds1" "length ds1 \<le> 3"
    and d2: "list_all isDigit ds2" "1 \<le> length ds2" "length ds2 \<le> 3"
    and d3: "list_all isDigit ds3" "1 \<le> length ds3" "length ds3 \<le> 3"
    and w: "list_all isSpace w1" "list_all isSpace w2" "list_all isSpace w3" "list_all isSpace w4"
  shows "parseColor (Str (''rgb('' @ w1 @ (if p1 then ds1 @ ''%'' else ds1) @ '','' @ w2
            @ (if p2 then ds2 @ ''%'' else ds2) @ '','' @ w3
            @ (if p3 then ds3 @ ''%'' else ds3) @ w4 @ '')''))
         = Inr (Rgb
            \<lparr>r = (if p1 then round (of_int (horner_sum digitValue 10 (rev ds1)) * 255 / 100 :: real)
                   else horner_sum digitValue 10 (rev ds1)),
             g = (if p2 then round (of_int (horner_sum digitValue 10 (rev ds2)) * 255 / 100 :: real)
                   else horner_sum digitValue 10 (rev ds2)),
             b = (if p3 then round (of_int (horner_sum digitValue 10 (rev ds3)) * 255 / 100 :: real)
                   else horner_sum digitValue 10 (rev ds3))\<rparr>)"
  by (simp only: parseColor_rgb_text [OF assms] parseComponentValue_text [OF d1(1,2)]
      parseComponentValue_text [OF d2(1,2)] parseComponentValue_text [OF d3(1,2)])

theorem rgb_component_values_witness:
  "parseColor (Str ''rgb(50%,50%,50%)'') = Inr (Rgb \<lparr>r = 128, g = 128, b = 128\<rparr>)
   \<and> parseColor (Str ''rgb(100%,0%,0%)'') = Inr (Rgb \<lparr>r = 255, g = 0, b = 0\<rparr>)
   \<and> parseColor (Str ''rgb(999, 256,7 )'') = Inr (Rgb \<lparr>r = 999, g = 256, b = 7\<rparr>)"
proof -
  have "parseColor (Str ''rgb(50%,50%,50%)'') = Inr (Rgb \<lparr>r = 128, g = 128, b = 128\<rparr>)"
    using rgb_component_values [of "''50''" "''50''" "''50''" "[]" "[]" "[]" "[]" True True True]
    by (simp add: isDigit_def digitValue_def round_def)
  moreover
  have "parseColor (Str ''rgb(100%,0%,0%)'') = Inr (Rgb \<lparr>r = 255, g = 0, b = 0\<rparr>)"
    using rgb_component_values [of "''100''" "''0''" "''0''" "[]" "[]" "[]" "[]" True True True]
    by (simp add: isDigit_def digitValue_def round_def)
  moreover
  have "parseColor (Str ''rgb(999, 256,7 )'') = Inr (Rgb \<lparr>r = 999, g = 256, b = 7\<rparr>)"
    using rgb_component_values [of "''999''" "''256''" "''7''" "[]" "'' ''" "[]" "'' ''" False False False]
    by (simp add: isDigit_def isSpace_def digitValue_def)
  ultimately show ?thesis by blast
qed

lemma percent_uncapped:
  assumes "100 < v"
  shows "255 < round (of_int v * 255 / 100 :: real)"
proof -
  from assms have "101 \<le> v" by simp
  then have "(101::real) \<le> of_int v" by (metis of_int_le_iff of_int_numeral)
  then have "of_int (256::int) \<le> (of_int v * 255 / 100 + 1 / 2 :: real)" by simp
  then have "256 \<le> \<lfloor>of_int v * 255 / 100 + 1 / 2 :: real\<rfloor>" by (simp only: le_floor_iff)
  then show ?thesis by (simp add: round_def)
qed

lemma percent_component:
  assumes "list_all isDigit ds" and "1 \<le> length ds"
  shows "parseComponentValue (ds @ ''%'')
           = round (of_int (horner_sum digitValue 10 (rev ds)) * 255 / 100 :: real)
       \<and> (100 < horner_sum digitValue 10 (rev ds) \<longrightarrow> 255 < parseComponentValue (ds @ ''%''))"
proof -
  have e: "parseComponentValue (ds @ ''%'')
      = round (of_int (horner_sum digitValue 10 (rev ds)) * 255 / 100 :: real)"
    using parseComponentValue_text [OF assms, of True] by (simp only: if_True)
  show ?thesis
    unfolding e using percent_uncapped by blast
qed

text \<open>
  C10. A percentage component of an \<open>rgb(...)\<close> source, in whichever position, is
  \<open>round (v * 255 / 100)\<close> of its 1 to 3 digits whatever their value \<open>v\<close>: nothing
  clamps the result to 255, so every percentage above 100 gives a channel above 255. The
  witness has \<open>rgb(999%, 0%, 0%)\<close>, with red component 2547.
\<close>

theorem percent_above_100_uncapped:
  assumes d1: "list_all isDigit ds1" "1 \<le> length ds1" "length ds1 \<le> 3"
    and d2: "list_all isDigit ds2" "1 \<le> length ds2" "length ds2 \<le> 3"
    and d3: "list_all isDigit ds3" "1 \<le> length ds3" "length ds3 \<le> 3"
    and w: "list_all isSpace w1" "list_all isSpace w2" "list_all isSpace w3" "list_all isSpace w4"
  shows "\<exists>t. parseColor (Str (''rgb('' @ w1 @ (if p1 then ds1 @ ''%'' else ds1) @ '','' @ w2
            @ (if p2 then ds2 @ ''%'' else ds2) @ '','' @ w3
            @ (if p3 then ds3 @ ''%'' else ds3) @ w4 @ '')'')) = Inr (Rgb t)
       \<and> (p1 \<longrightarrow> r t = round (of_int (horner_sum digitValue 10 (rev ds1)) * 255 / 100 :: real)
              \<and> (100 < horner_sum digitValue 10 (rev ds1) \<longrightarrow> 255 < r t))
       \<and> (p2 \<longrightarrow> g t = round (of_int (horner_sum digitValue 10 (rev ds2)) * 255 / 100 :: real)
              \<and> (100 < horner_sum digitValue 10 (rev ds2) \<longrightarrow> 255 < g t))
       \<and> (p3 \<longrightarrow> b t = round (of_int (horner_sum digitValue 10 (rev ds3)) * 255 / 100 :: real)
              \<and> (100 < horner_sum digitValue 10 (rev ds3) \<longrightarrow> 255 < b t))"
proof -
  let ?t = "\<lparr>r = parseComponentValue (if p1 then ds1 @ ''%'' else ds1),
             g = parseComponentValue (if p2 then ds2 @ ''%'' else ds2),
             b = parseComponentValue (if p3 then ds3 @ ''%'' else ds3)\<rparr>"
  have parse: "parseColor (Str (''rgb('' @ w1 @ (if p1 then ds1 @ ''%'' else ds1) @ '','' @ w2
            @ (if p2 then ds2 @ ''%'' else ds2) @ '','' @ w3
            @ (if p3 then ds3 @ ''%'' else ds3) @ w4 @ '')'')) = Inr (Rgb ?t)"
    using assms by (rule parseColor_rgb_text)
  have c1: "p1 \<longrightarrow> r ?t = round (of_int (horner_sum digitValue 10 (rev ds1)) * 255 / 100 :: real)
              \<and> (100 < horner_sum digitValue 10 (rev ds1) \<longrightarrow> 255 < r ?t)"
  proof
    assume p1
    then have "r ?t = parseComponentValue (ds1 @ ''%'')" by simp
    with percent_component [OF d1(1,2)]
    show "r ?t = round (of_int (horner_sum digitValue 10 (rev ds1)) * 255 / 100 :: real)
              \<and> (100 < horner_sum digitValue 10 (rev ds1) \<longrightarrow> 255 < r ?t)"
      by metis
  qed
  have c2: "p2 \<longrightarrow> g ?t = round (of_int (horner_sum digitValue 10 (rev ds2)) * 255 / 100 :: real)
              \<and> (100 < horner_sum digitValue 10 (rev ds2) \<longrightarrow> 255 < g ?t)"
  proof
    assume p2
    then have "g ?t = parseComponentValue (ds2 @ ''%'')" by simp
    with percent_component [OF d2(1,2)]
    show "g ?t = round (of_int (horner_sum digitValue 10 (rev ds2)) * 255 / 100 :: real)
              \<and> (100 < horner_sum digitValue 10 (rev ds2) \<longrightarrow> 255 < g ?t)"
      by metis
  qed
  have c3: "p3 \<longrightarrow> b ?t = round (of_int (horner_sum digitValue 10 (rev ds3)) * 255 / 100 :: real)
              \<and> (100 < horner_sum digitValue 10 (rev ds3) \<longrightarrow> 255 < b ?t)"
  proof
    assume p3
    then have "b ?t = parseComponentValue (ds3 @ ''%'')" by simp
    with percent_component [OF d3(1,2)]
    show "b ?t = round (of_int (horner_sum digitValue 10 (rev ds3)) * 255 / 100 :: real)
              \<and> (100 < horner_sum digitValue 10 (rev ds3) \<longrightarrow> 255 < b ?t)"
      by metis
  qed
  from parse c1 c2 c3 show ?thesis by blast
qed

theorem percent_above_100_uncapped_witness:
  "parseColor (Str ''rgb(999%, 0%, 0%)'') = Inr (Rgb \<lparr>r = 2547, g = 0, b = 0\<rparr>)
   \<and> (100::int) < horner_sum digitValue 10 (rev ''999'') \<and> (255::int) < 2547"
proof -
  from percent_above_100_uncapped [of "''999''" "''0''" "''0''" "[]" "'' ''" "'' ''" "[]" True True True]
  obtain t where "parseColor (Str ''rgb(999%, 0%, 0%)'') = Inr (Rgb t)"
    and "r t = 2547" and "g t = 0" and "b t = 0"
    by (auto simp: isDigit_def isSpace_def digitValue_def round_def)
  then have "parseColor (Str ''rgb(999%, 0%, 0%)'') = Inr (Rgb \<lparr>r = 2547, g = 0, b = 0\<rparr>)"
    by (cases t) simp
  then show ?thesis
    by (simp add: digitValue_def)
qed

section \<open>The nearest entry of a palette\<close>

lemma distanceSq_Rgb:
  "distanceSq (Rgb q) (Rgb t) = Inr (Some (squaredDistance q t))"
  by (simp add: squaredDistance_def)

lemma square_bound:
  fixes x y :: int
  assumes "\<bar>x\<bar> \<le> 2 ^ 24" and "\<bar>y\<bar> \<le> 2 ^ 24"
  shows "(x - y)\<^sup>2 \<le> 2 ^ 50"
proof -
  from assms have "\<bar>x - y\<bar> \<le> \<bar>2 ^ 25 :: int\<bar>" by simp
  then have "(x - y)\<^sup>2 \<le> (2 ^ 25)\<^sup>2" by (simp only: abs_le_square_iff)
  then show ?thesis by simp
qed

lemma squaredDistance_exact:
  assumes "exactRange q" and "exactRange t"
  shows "0 \<le> squaredDistance q t \<and> squaredDistance q t < 2 ^ 53"
proof -
  from assms have "(r q - r t)\<^sup>2 \<le> 2 ^ 50" "(g q - g t)\<^sup>2 \<le> 2 ^ 50" "(b q - b t)\<^sup>2 \<le> 2 ^ 50"
    unfolding exactRange_def by (blast intro: square_bound)+
  then show ?thesis by (simp add: squaredDistance_def)
qed

lemma scan_Some:
  assumes "map rgb cs = map Rgb ts"
  shows "(scan (Rgb q) cs (Some (m, v)) = Inr (Some (m, v))
           \<and> (\<forall>j<length cs. m \<le> squaredDistance q (ts ! j)))
       \<or> (\<exists>i<length cs.
             scan (Rgb q) cs (Some (m, v)) = Inr (Some (squaredDistance q (ts ! i), cs ! i))
           \<and> squaredDistance q (ts ! i) < m
           \<and> (\<forall>j<length cs. squaredDistance q (ts ! i) \<le> squaredDistance q (ts ! j))
           \<and> (\<forall>j<i. squaredDistance q (ts ! i) < squaredDistance q (ts ! j)))"
  using assms
proof (induction cs arbitrary: ts m v)
  case Nil
  then show ?case by simp
next
  case (Cons c cs)
  then obtain t ts' where ts: "ts = t # ts'" and c: "rgb c = Rgb t"
    and rest: "map rgb cs = map Rgb ts'"
    by (cases ts) auto
  let ?d = "squaredDistance q t"
  show ?case
  proof (cases "?d < m")
    case True
    then have step: "scan (Rgb q) (c # cs) (Some (m, v)) = scan (Rgb q) cs (Some (?d, c))"
      by (simp add: c squaredDistance_def)
    from Cons.IH [OF rest, of ?d c] show ?thesis
    proof (elim disjE conjE exE)
      assume keep: "scan (Rgb q) cs (Some (?d, c)) = Inr (Some (?d, c))"
        and low: "\<forall>j<length cs. ?d \<le> squaredDistance q (ts' ! j)"
      have "0 < length (c # cs)" by simp
      moreover have "scan (Rgb q) (c # cs) (Some (m, v))
          = Inr (Some (squaredDistance q (ts ! 0), (c # cs) ! 0))"
        by (simp only: step keep ts nth_Cons_0)
      moreover have "squaredDistance q (ts ! 0) < m"
        using True by (simp add: ts)
      moreover have "\<forall>j<length (c # cs). squaredDistance q (ts ! 0) \<le> squaredDistance q (ts ! j)"
        using low by (simp add: ts All_less_Suc2)
      moreover have "\<forall>j<0::nat. squaredDistance q (ts ! 0) < squaredDistance q (ts ! j)"
        by simp
      ultimately show ?thesis by blast
    next
      fix i
      assume i: "i < length cs"
        and move: "scan (Rgb q) cs (Some (?d, c)) = Inr (Some (squaredDistance q (ts' ! i), cs ! i))"
        and less: "squaredDistance q (ts' ! i) < ?d"
        and low: "\<forall>j<length cs. squaredDistance q (ts' ! i) \<le> squaredDistance q (ts' ! j)"
        and first: "\<forall>j<i. squaredDistance q (ts' ! i) < squaredDistance q (ts' ! j)"
      have "Suc i < length (c # cs)" using i by simp
      moreover have "scan (Rgb q) (c # cs) (Some (m, v))
          = Inr (Some (squaredDistance q (ts ! Suc i), (c # cs) ! Suc i))"
        by (simp only: step move ts nth_Cons_Suc)
      moreover have "squaredDistance q (ts ! Suc i) < m"
        using True less by (simp add: ts)
      moreover have "\<forall>j<length (c # cs).
          squaredDistance q (ts ! Suc i) \<le> squaredDistance q (ts ! j)"
        using low less by (simp add: ts All_less_Suc2)
      moreover have "\<forall>j<Suc i. squaredDistance q (ts ! Suc i) < squaredDistance q (ts ! j)"
        using first less by (simp add: ts All_less_Suc2)
      ultimately show ?thesis by blast
    qed
  next
    case False
    then have step: "scan (Rgb q) (c # cs) (Some (m, v)) = scan (Rgb q) cs (Some (m, v))"
      by (simp add: c squaredDistance_def)
    from Cons.IH [OF rest, of m v] show ?thesis
    proof (elim disjE conjE exE)
      assume keep: "scan (Rgb q) cs (Some (m, v)) = Inr (Some (m, v))"
        and low: "\<forall>j<length cs. m \<le> squaredDistance q (ts' ! j)"
      have "scan (Rgb q) (c # cs) (Some (m, v)) = Inr (Some (m, v))"
        by (simp only: step keep)
      moreover have "\<forall>j<length (c # cs). m \<le> squaredDistance q (ts ! j)"
        using low False by (simp add: ts All_less_Suc2)
      ultimately show ?thesis by blast
    next
      fix i
      assume i: "i < length cs"
        and move: "scan (Rgb q) cs (Some (m, v)) = Inr (Some (squaredDistance q (ts' ! i), cs ! i))"
        and less: "squaredDistance q (ts' ! i) < m"
        and low: "\<forall>j<length cs. squaredDistance q (ts' ! i) \<le> squaredDistance q (ts' ! j)"
        and first: "\<forall>j<i. squaredDistance q (ts' ! i) < squaredDistance q (ts' ! j)"
      have "Suc i < length (c # cs)" using i by simp
      moreover have "scan (Rgb q) (c # cs) (Some (m, v))
          = Inr (Some (squaredDistance q (ts ! Suc i), (c # cs) ! Suc i))"
        by (simp only: step move ts nth_Cons_Suc)
      moreover have "squaredDistance q (ts ! Suc i) < m"
        using less by (simp add: ts)
      moreover have "\<forall>j<length (c # cs).
          squaredDistance q (ts ! Suc i) \<le> squaredDistance q (ts ! j)"
        using low less False by (simp add: ts All_less_Suc2)
      moreover have "\<forall>j<Suc i. squaredDistance q (ts ! Suc i) < squaredDistance q (ts ! j)"
        using first less False by (simp add: ts All_less_Suc2)
      ultimately show ?thesis by blast
    qed
  qed
qed

lemma scan_None:
  assumes "map rgb cs = map Rgb ts" and "cs \<noteq> []"
  shows "\<exists>i<length cs.
      scan (Rgb q) cs None = Inr (Some (squaredDistance q (ts ! i), cs ! i))
    \<and> (\<forall>j<length cs. squaredDistance q (ts ! i) \<le> squaredDistance q (ts ! j))
    \<and> (\<forall>j<i. squaredDistance q (ts ! i) < squaredDistance q (ts ! j))"
proof -
  from assms obtain c cs' t ts' where cs: "cs = c # cs'" and ts: "ts = t # ts'"
    and c: "rgb c = Rgb t" and rest: "map rgb cs' = map Rgb ts'"
    by (cases cs; cases ts) auto
  let ?d = "squaredDistance q t"
  have step: "scan (Rgb q) (c # cs') None = scan (Rgb q) cs' (Some (?d, c))"
    by (simp add: c squaredDistance_def)
  from scan_Some [OF rest, of q ?d c] show ?thesis
  proof (elim disjE conjE exE)
    assume keep: "scan (Rgb q) cs' (Some (?d, c)) = Inr (Some (?d, c))"
      and low: "\<forall>j<length cs'. ?d \<le> squaredDistance q (ts' ! j)"
    have "0 < length cs" by (simp add: cs)
    moreover have "scan (Rgb q) cs None = Inr (Some (squaredDistance q (ts ! 0), cs ! 0))"
      by (simp only: step keep ts cs nth_Cons_0)
    moreover have "\<forall>j<length cs. squaredDistance q (ts ! 0) \<le> squaredDistance q (ts ! j)"
      using low by (simp add: ts cs All_less_Suc2)
    moreover have "\<forall>j<0::nat. squaredDistance q (ts ! 0) < squaredDistance q (ts ! j)"
      by simp
    ultimately show ?thesis by blast
  next
    fix i
    assume i: "i < length cs'"
      and move: "scan (Rgb q) cs' (Some (?d, c)) = Inr (Some (squaredDistance q (ts' ! i), cs' ! i))"
      and less: "squaredDistance q (ts' ! i) < ?d"
      and low: "\<forall>j<length cs'. squaredDistance q (ts' ! i) \<le> squaredDistance q (ts' ! j)"
      and first: "\<forall>j<i. squaredDistance q (ts' ! i) < squaredDistance q (ts' ! j)"
    have "Suc i < length cs" using i by (simp add: cs)
    moreover have "scan (Rgb q) cs None
        = Inr (Some (squaredDistance q (ts ! Suc i), cs ! Suc i))"
      by (simp only: step move ts cs nth_Cons_Suc)
    moreover have "\<forall>j<length cs. squaredDistance q (ts ! Suc i) \<le> squaredDistance q (ts ! j)"
      using low less by (simp add: ts cs All_less_Suc2)
    moreover have "\<forall>j<Suc i. squaredDistance q (ts ! Suc i) < squaredDistance q (ts ! j)"
      using first less by (simp add: ts All_less_Suc2)
    ultimately show ?thesis by blast
  qed
qed

lemma nearestColor_scan:
  assumes "parseColor needle = Inr (Rgb q)"
    and "scan (Rgb q) cs None = Inr (Some (d, v))"
  shows "nearestColor needle (Some cs) =
      Inr (case truthy (name v) of
             Some n \<Rightarrow> ResultMatch \<lparr>ColorMatch.name = n, value = source v,
                         ColorMatch.rgb = rgb v, distance = sqrt (of_int d)\<rparr>
           | None \<Rightarrow> ResultSource (source v))"
  using assms by (simp add: nearestColor_def split: option.split)

text \<open>
  C1. When the needle parses to an RGB object \<open>q\<close>, the palette \<open>cs\<close> is not empty and
  holds RGB objects (\<open>ts\<close>, entry by entry), and \<open>q\<close> and the entries have components of
  absolute value at most \<open>2^24\<close> (\<open>exactRange\<close>, so that every squared distance is below
  \<open>2^53\<close> and the code computes it without rounding): the entry the loop leaves in
  \<open>value\<close> is \<open>cs ! i\<close> for the first index \<open>i\<close> at which the squared distance
  \<open>(qr-r)^2 + (qg-g)^2 + (qb-b)^2\<close> to \<open>q\<close> is least: no entry is nearer, and every entry
  before it is strictly farther (the comparison is a strict \<open><\<close>, so on a tie the earlier
  entry stays). \<open>nearestColor\<close> returns what it builds from that entry. The witness is the
  palette of two entries at \<open>(0,0,0)\<close>, matched with \<open>(0,0,0)\<close>: the first one is returned.
\<close>

theorem nearest_is_first_minimum:
  assumes "parseColor needle = Inr (Rgb q)" and "cs \<noteq> []" and "map rgb cs = map Rgb ts"
    and "exactRange q" and "list_all exactRange ts"
  shows "\<exists>i<length cs.
      (\<forall>j<length cs. squaredDistance q (ts ! j) < 2 ^ 53)
    \<and> (\<forall>j<length cs. squaredDistance q (ts ! i) \<le> squaredDistance q (ts ! j))
    \<and> (\<forall>j<i. squaredDistance q (ts ! i) < squaredDistance q (ts ! j))
    \<and> scan (Rgb q) cs None = Inr (Some (squaredDistance q (ts ! i), cs ! i))
    \<and> nearestColor needle (Some cs) =
        Inr (case truthy (name (cs ! i)) of
               Some n \<Rightarrow> ResultMatch \<lparr>ColorMatch.name = n, value = source (cs ! i),
                           ColorMatch.rgb = rgb (cs ! i),
                           distance = sqrt (of_int (squaredDistance q (ts ! i)))\<rparr>
             | None \<Rightarrow> ResultSource (source (cs ! i)))"
proof -
  from scan_None [OF assms(3,2), of q] obtain i where i: "i < length cs"
    and sc: "scan (Rgb q) cs None = Inr (Some (squaredDistance q (ts ! i), cs ! i))"
    and low: "\<forall>j<length cs. squaredDistance q (ts ! i) \<le> squaredDistance q (ts ! j)"
    and first: "\<forall>j<i. squaredDistance q (ts ! i) < squaredDistance q (ts ! j)"
    by blast
  from assms(3) have "length cs = length ts" by (rule map_eq_imp_length_eq)
  with assms(5) have "\<forall>j<length cs. exactRange (ts ! j)"
    by (simp add: list_all_length)
  with squaredDistance_exact [OF assms(4)]
  have exact: "\<forall>j<length cs. squaredDistance q (ts ! j) < 2 ^ 53"
    by blast
  from nearestColor_scan [OF assms(1) sc] i sc low first exact show ?thesis
    by blast
qed

theorem nearest_is_first_minimum_witness:
  "nearestColor (Obj (Rgb \<lparr>r = 0, g = 0, b = 0\<rparr>))
     (Some [\<lparr>name = None, source = ''#000'', rgb = Rgb \<lparr>r = 0, g = 0, b = 0\<rparr>\<rparr>,
            \<lparr>name = None, source = ''#000000'', rgb = Rgb \<lparr>r = 0, g = 0, b = 0\<rparr>\<rparr>])
   = Inr (ResultSource ''#000'')"
  using nearest_is_first_minimum [of "Obj (Rgb \<lparr>r = 0, g = 0, b = 0\<rparr>)" "\<lparr>r = 0, g = 0, b = 0\<rparr>"
      "[\<lparr>name = None, source = ''#000'', rgb = Rgb \<lparr>r = 0, g = 0, b = 0\<rparr>\<rparr>,
        \<lparr>name = None, source = ''#000000'', rgb = Rgb \<lparr>r = 0, g = 0, b = 0\<rparr>\<rparr>]"
      "[\<lparr>r = 0, g = 0, b = 0\<rparr>, \<lparr>r = 0, g = 0, b = 0\<rparr>]"]
  by (auto simp: squaredDistance_def exactRange_def truthy_def less_Suc_eq_0_disj)

text \<open>
  C2. Under the same conditions (the needle parses to \<open>q\<close>, the palette is not empty and
  holds RGB objects, \<open>q\<close> and the entries are in \<open>exactRange\<close>), with \<open>cs ! i\<close> the winning
  entry: when it has a name (a non-empty string) the result is the record of that name,
  the entry's \<open>source\<close> as \<open>value\<close>, its RGB object and, as \<open>distance\<close>, the square root
  of the least squared distance (the real root, which is what \<open>Math.sqrt\<close> returns when
  the squared distance is a perfect square, and the double nearest to which it returns
  otherwise); when it has no name (or an empty one) the result is the entry's \<open>source\<close>
  alone. The palette \<open>{maroon: '#800', yellow: '#ffe'}\<close> matched with \<open>'#f00'\<close> gives the
  name \<open>maroon\<close>, the value \<open>#800\<close> and the distance 119.
\<close>

theorem match_result_shape:
  assumes "parseColor needle = Inr (Rgb q)" and "cs \<noteq> []" and "map rgb cs = map Rgb ts"
    and "exactRange q" and "list_all exactRange ts"
  shows "(\<exists>i<length cs.
      (\<forall>j<length cs. squaredDistance q (ts ! i) \<le> squaredDistance q (ts ! j))
    \<and> (\<forall>j<i. squaredDistance q (ts ! i) < squaredDistance q (ts ! j))
    \<and> (\<forall>n. name (cs ! i) = Some n \<and> n \<noteq> [] \<longrightarrow>
          nearestColor needle (Some cs) =
            Inr (ResultMatch \<lparr>ColorMatch.name = n, value = source (cs ! i),
                  ColorMatch.rgb = Rgb (ts ! i),
                  distance = sqrt (of_int (squaredDistance q (ts ! i)))\<rparr>))
    \<and> (name (cs ! i) = None \<or> name (cs ! i) = Some [] \<longrightarrow>
          nearestColor needle (Some cs) = Inr (ResultSource (source (cs ! i)))))
    \<and> from (ColorObject [(''maroon'', IStr ''#800''), (''yellow'', IStr ''#ffe'')])
        = Inr (Matcher
            [\<lparr>name = Some ''maroon'', source = ''#800'', rgb = Rgb \<lparr>r = 136, g = 0, b = 0\<rparr>\<rparr>,
             \<lparr>name = Some ''yellow'', source = ''#ffe'', rgb = Rgb \<lparr>r = 255, g = 255, b = 238\<rparr>\<rparr>])
    \<and> matcher_call (Matcher
            [\<lparr>name = Some ''maroon'', source = ''#800'', rgb = Rgb \<lparr>r = 136, g = 0, b = 0\<rparr>\<rparr>,
             \<lparr>name = Some ''yellow'', source = ''#ffe'', rgb = Rgb \<lparr>r = 255, g = 255, b = 238\<rparr>\<rparr>])
          (Str ''#f00'')
        = Inr (ResultMatch \<lparr>ColorMatch.name = ''maroon'', value = ''#800'',
                 ColorMatch.rgb = Rgb \<lparr>r = 136, g = 0, b = 0\<rparr>, distance = 119\<rparr>)"
proof (intro conjI)
  from scan_None [OF assms(3,2), of q] obtain i where i: "i < length cs"
    and sc: "scan (Rgb q) cs None = Inr (Some (squaredDistance q (ts ! i), cs ! i))"
    and low: "\<forall>j<length cs. squaredDistance q (ts ! i) \<le> squaredDistance q (ts ! j)"
    and first: "\<forall>j<i. squaredDistance q (ts ! i) < squaredDistance q (ts ! j)"
    by blast
  from i assms(3) have "map rgb cs ! i = map Rgb ts ! i" by simp
  with i assms(3) have rgbi: "rgb (cs ! i) = Rgb (ts ! i)"
    by (metis length_map nth_map)
  note res = nearestColor_scan [OF assms(1) sc]
  have named: "\<forall>n. name (cs ! i) = Some n \<and> n \<noteq> [] \<longrightarrow>
      nearestColor needle (Some cs) =
        Inr (ResultMatch \<lparr>ColorMatch.name = n, value = source (cs ! i),
              ColorMatch.rgb = Rgb (ts ! i),
              distance = sqrt (of_int (squaredDistance q (ts ! i)))\<rparr>)"
    using res rgbi by (simp add: truthy_def)
  have bare: "name (cs ! i) = None \<or> name (cs ! i) = Some [] \<longrightarrow>
      nearestColor needle (Some cs) = Inr (ResultSource (source (cs ! i)))"
    using res by (auto simp: truthy_def)
  from i low first named bare
  show "\<exists>i<length cs.
      (\<forall>j<length cs. squaredDistance q (ts ! i) \<le> squaredDistance q (ts ! j))
    \<and> (\<forall>j<i. squaredDistance q (ts ! i) < squaredDistance q (ts ! j))
    \<and> (\<forall>n. name (cs ! i) = Some n \<and> n \<noteq> [] \<longrightarrow>
          nearestColor needle (Some cs) =
            Inr (ResultMatch \<lparr>ColorMatch.name = n, value = source (cs ! i),
                  ColorMatch.rgb = Rgb (ts ! i),
                  distance = sqrt (of_int (squaredDistance q (ts ! i)))\<rparr>))
    \<and> (name (cs ! i) = None \<or> name (cs ! i) = Some [] \<longrightarrow>
          nearestColor needle (Some cs) = Inr (ResultSource (source (cs ! i))))"
    by blast
next
  show "from (ColorObject [(''maroon'', IStr ''#800''), (''yellow'', IStr ''#ffe'')])
        = Inr (Matcher
            [\<lparr>name = Some ''maroon'', source = ''#800'', rgb = Rgb \<lparr>r = 136, g = 0, b = 0\<rparr>\<rparr>,
             \<lparr>name = Some ''yellow'', source = ''#ffe'', rgb = Rgb \<lparr>r = 255, g = 255, b = 238\<rparr>\<rparr>])"
    by (simp add: from_def truthy_def parse_defs)
next
  show "matcher_call (Matcher
            [\<lparr>name = Some ''maroon'', source = ''#800'', rgb = Rgb \<lparr>r = 136, g = 0, b = 0\<rparr>\<rparr>,
             \<lparr>name = Some ''yellow'', source = ''#ffe'', rgb = Rgb \<lparr>r = 255, g = 255, b = 238\<rparr>\<rparr>])
          (Str ''#f00'')
        = Inr (ResultMatch \<lparr>ColorMatch.name = ''maroon'', value = ''#800'',
                 ColorMatch.rgb = Rgb \<lparr>r = 136, g = 0, b = 0\<rparr>, distance = 119\<rparr>)"
    by (simp add: matcher_call_def nearestColor_def truthy_def parse_defs real_sqrt_unique)
qed

theorem match_result_shape_witness:
  "nearestColor (Str ''rgb(255, 3, 4)'')
     (Some [\<lparr>name = Some ''red'', source = ''#f00'', rgb = Rgb \<lparr>r = 255, g = 0, b = 0\<rparr>\<rparr>,
            \<lparr>name = None, source = ''#00f'', rgb = Rgb \<lparr>r = 0, g = 0, b = 255\<rparr>\<rparr>])
     = Inr (ResultMatch \<lparr>ColorMatch.name = ''red'', value = ''#f00'',
              ColorMatch.rgb = Rgb \<lparr>r = 255, g = 0, b = 0\<rparr>, distance = 5\<rparr>)
   \<and> nearestColor (Str ''#11f'')
     (Some [\<lparr>name = Some ''red'', source = ''#f00'', rgb = Rgb \<lparr>r = 255, g = 0, b = 0\<rparr>\<rparr>,
            \<lparr>name = None, source = ''#00f'', rgb = Rgb \<lparr>r = 0, g = 0, b = 255\<rparr>\<rparr>])
     = Inr (ResultSource ''#00f'')"
proof -
  have p1: "parseColor (Str ''rgb(255, 3, 4)'') = Inr (Rgb \<lparr>r = 255, g = 3, b = 4\<rparr>)"
    and p2: "parseColor (Str ''#11f'') = Inr (Rgb \<lparr>r = 17, g = 17, b = 255\<rparr>)"
    by (simp_all add: parse_defs)
  let ?cs = "[\<lparr>name = Some ''red'', source = ''#f00'', rgb = Rgb \<lparr>r = 255, g = 0, b = 0\<rparr>\<rparr>,
            \<lparr>name = None, source = ''#00f'', rgb = Rgb \<lparr>r = 0, g = 0, b = 255\<rparr>\<rparr>]"
  let ?ts = "[\<lparr>r = 255, g = 0, b = 0\<rparr>, \<lparr>r = 0, g = 0, b = 255\<rparr>]"
  have "nearestColor (Str ''rgb(255, 3, 4)'') (Some ?cs)
     = Inr (ResultMatch \<lparr>ColorMatch.name = ''red'', value = ''#f00'',
              ColorMatch.rgb = Rgb \<lparr>r = 255, g = 0, b = 0\<rparr>, distance = 5\<rparr>)"
    using match_result_shape [OF p1, of ?cs ?ts, THEN conjunct1]
    by (auto simp: squaredDistance_def exactRange_def less_Suc_eq_0_disj real_sqrt_unique)
  moreover have "nearestColor (Str ''#11f'') (Some ?cs) = Inr (ResultSource ''#00f'')"
    using match_result_shape [OF p2, of ?cs ?ts, THEN conjunct1]
    by (auto simp: squaredDistance_def exactRange_def less_Suc_eq_0_disj)
  ultimately show ?thesis by blast
qed

section \<open>Normalizing palettes and combining matchers\<close>

lemma parseColor_empty: "parseColor (Str []) = Inl (InvalidColorFormat [])"
  by (simp add: parse_defs)

lemma truthy_not_empty: "truthy nm \<noteq> Some []"
  by (simp add: truthy_def split: option.split)

lemma truthy_id: "nm \<noteq> Some [] \<Longrightarrow> truthy nm = nm"
  by (simp add: truthy_def split: option.split)

lemma consistent_source: "consistent c \<Longrightarrow> source c \<noteq> []"
  by (auto simp: consistent_def parseColor_empty)

lemma createColorSpec_IStr:
  "createColorSpec (IStr s) nm = Inr c \<longleftrightarrow>
     parseColor (Str s) = Inr (rgb c) \<and> name c = truthy nm \<and> source c = s"
  by (cases "parseColor (Str s)") auto

lemma createColorSpec_consistent:
  assumes "createColorSpec x nm = Inr c" and "inputInRange x"
  shows "consistent c \<and> name c \<noteq> Some []"
proof (cases x)
  case (IStr s)
  with assms(1) have "createColorSpec (IStr s) nm = Inr c" by simp
  then show ?thesis
    by (simp only: createColorSpec_IStr consistent_def) (simp add: truthy_not_empty)
next
  case (IRgb t)
  with assms show ?thesis
    by (auto simp: consistent_def truthy_not_empty parseColor_rgbToHex)
next
  case (ISpec c0)
  with assms(1) have ne: "source c0 \<noteq> []"
    by (auto split: if_splits)
  with assms(1) ISpec have "createColorSpec (IStr (source c0)) (name c0) = Inr c"
    by simp
  then show ?thesis
    by (simp only: createColorSpec_IStr consistent_def) (simp add: truthy_not_empty)
qed

lemma createColorSpec_rebuild:
  assumes "consistent c"
  shows "createColorSpec (ISpec c) nm = Inr (c\<lparr>name := truthy (name c)\<rparr>)"
proof -
  from assms have ne: "source c \<noteq> []" by (rule consistent_source)
  from assms have "parseColor (Str (source c)) = Inr (rgb c)"
    by (simp add: consistent_def)
  then have "createColorSpec (IStr (source c)) (name c) = Inr (c\<lparr>name := truthy (name c)\<rparr>)"
    by (simp add: createColorSpec_IStr)
  with ne show ?thesis by simp
qed

lemma createColorSpec_passthrough:
  assumes "consistent c" and "name c \<noteq> Some []"
  shows "createColorSpec (ISpec c) nm = Inr c"
  using createColorSpec_rebuild [OF assms(1), of nm] assms(2) by (simp add: truthy_id)

lemma mapE_Inr_D: "mapE f xs = Inr ys \<Longrightarrow> list_all2 (\<lambda>x y. f x = Inr y) xs ys"
  by (induction xs arbitrary: ys) (auto split: sum.splits)

lemma mapE_first_error:
  assumes "mapE f xs = Inr ys" and "f x = Inl e"
  shows "mapE f (xs @ x # zs) = Inl e"
  using assms by (induction xs arbitrary: ys) (auto split: sum.splits)

lemma mapColors_consistent:
  assumes "mapColors P = Inr ps" and "list_all inputInRange (inputs P)"
  shows "list_all (\<lambda>c. consistent c \<and> name c \<noteq> Some []) ps"
proof (cases P)
  case (ColorArray xs)
  with assms(1) have "list_all2 (\<lambda>x y. createColorSpec x None = Inr y) xs ps"
    by (simp add: mapE_Inr_D)
  moreover from assms(2) ColorArray have "list_all inputInRange xs" by simp
  ultimately show ?thesis
    by (induction xs ps rule: list_all2_induct) (auto dest: createColorSpec_consistent)
next
  case (ColorObject kvs)
  with assms(1) have "list_all2 (\<lambda>x y. (case x of (nm, color) \<Rightarrow> createColorSpec color (Some nm)) = Inr y) kvs ps"
    by (simp add: mapE_Inr_D)
  moreover from assms(2) ColorObject have "list_all (\<lambda>x. inputInRange (snd x)) kvs"
    by (simp add: list_all_iff)
  ultimately show ?thesis
    by (induction kvs ps rule: list_all2_induct) (auto dest: createColorSpec_consistent)
qed

lemma mapColors_passthrough:
  assumes "list_all (\<lambda>c. consistent c \<and> name c \<noteq> Some []) cs"
  shows "mapColors (ColorArray (map ISpec cs)) = Inr cs"
  using assms by (induction cs) (simp_all add: createColorSpec_passthrough del: createColorSpec.simps)

lemma createColorSpec_element:
  assumes "createColorSpec x None = Inr y"
  shows "case x of
      ISpec c \<Rightarrow> name y = truthy (name c) \<and> source y = source c
        \<and> parseColor (Str (source c)) = Inr (rgb y)
        \<and> (consistent c \<and> name c \<noteq> Some [] \<longrightarrow> y = c)
    | IStr s \<Rightarrow> name y = None \<and> source y = s \<and> parseColor (Str s) = Inr (rgb y)
    | IRgb t \<Rightarrow> y = \<lparr>name = None, source = rgbToHex t, rgb = Rgb t\<rparr>"
proof (cases x)
  case (IStr s)
  with assms have "createColorSpec (IStr s) None = Inr y" by simp
  then have "parseColor (Str s) = Inr (rgb y) \<and> name y = truthy None \<and> source y = s"
    by (simp only: createColorSpec_IStr)
  with IStr show ?thesis by (simp add: truthy_def)
next
  case (IRgb t)
  with assms show ?thesis by (auto simp: truthy_def)
next
  case (ISpec c)
  with assms have ne: "source c \<noteq> []" by (auto split: if_splits)
  with assms ISpec have "createColorSpec (IStr (source c)) (name c) = Inr y" by simp
  then have parts: "parseColor (Str (source c)) = Inr (rgb y) \<and> name y = truthy (name c)
      \<and> source y = source c"
    by (simp only: createColorSpec_IStr)
  have "consistent c \<and> name c \<noteq> Some [] \<longrightarrow> y = c"
  proof
    assume "consistent c \<and> name c \<noteq> Some []"
    then have "consistent c" and "name c \<noteq> Some []" by blast+
    then have "createColorSpec (ISpec c) None = Inr c" by (rule createColorSpec_passthrough)
    with assms ISpec show "y = c" by simp
  qed
  with parts ISpec show ?thesis by simp
qed

lemma mapE_total:
  assumes "\<forall>x\<in>set xs. \<exists>y. f x = Inr y"
  shows "\<exists>ys. mapE f xs = Inr ys"
  using assms by (induction xs) auto

lemma createColorSpec_total:
  assumes "case x of ISpec c \<Rightarrow> consistent c | IStr s \<Rightarrow> \<not> isl (parseColor (Str s)) | IRgb t \<Rightarrow> True"
  shows "\<exists>y. createColorSpec x nm = Inr y"
proof (cases x)
  case (IStr s)
  with assms obtain ob where "parseColor (Str s) = Inr ob"
    by (cases "parseColor (Str s)") auto
  with IStr show ?thesis by simp
next
  case (IRgb t)
  then show ?thesis by simp
next
  case (ISpec c)
  with assms have "consistent c" by simp
  then have "createColorSpec (ISpec c) nm = Inr (c\<lparr>name := truthy (name c)\<rparr>)"
    by (rule createColorSpec_rebuild)
  with ISpec show ?thesis by blast
qed

lemma arrayElement_old_element:
  assumes "arrayElement_old x = Inr y"
  shows "case x of
      ISpec c \<Rightarrow> y = c
    | IStr s \<Rightarrow> name y = None \<and> source y = s \<and> parseColor_old (Str s) = Inr (rgb y)
    | IRgb t \<Rightarrow> False"
  using assms by (cases x) (auto split: sum.splits if_splits)

lemma arrayElement_old_total:
  assumes "case x of ISpec c \<Rightarrow> rgb c \<noteq> Null
      | IStr s \<Rightarrow> \<not> isl (parseColor_old (Str s)) | IRgb t \<Rightarrow> False"
  shows "\<exists>y. arrayElement_old x = Inr y"
proof (cases x)
  case (IStr s)
  with assms obtain ob where "parseColor_old (Str s) = Inr ob"
    by (cases "parseColor_old (Str s)") auto
  with IStr show ?thesis by simp
next
  case (IRgb t)
  with assms show ?thesis by simp
next
  case (ISpec c)
  with assms show ?thesis by simp
qed

lemma mapColors_old_elements:
  assumes "mapColors_old (ColorArray xs) = Inr ys"
  shows "length ys = length xs
    \<and> (\<forall>i<length xs. case xs ! i of
          ISpec c \<Rightarrow> ys ! i = c
        | IStr s \<Rightarrow> name (ys ! i) = None \<and> source (ys ! i) = s
            \<and> parseColor_old (Str s) = Inr (rgb (ys ! i))
        | IRgb t \<Rightarrow> False)"
proof -
  from assms have all2: "list_all2 (\<lambda>x y. arrayElement_old x = Inr y) xs ys"
    by (simp add: mapE_Inr_D)
  then have "length ys = length xs"
    by (simp add: list_all2_lengthD)
  moreover have "\<forall>i<length xs. case xs ! i of
          ISpec c \<Rightarrow> ys ! i = c
        | IStr s \<Rightarrow> name (ys ! i) = None \<and> source (ys ! i) = s
            \<and> parseColor_old (Str s) = Inr (rgb (ys ! i))
        | IRgb t \<Rightarrow> False"
  proof (intro allI impI)
    fix i
    assume "i < length xs"
    with all2 have "arrayElement_old (xs ! i) = Inr (ys ! i)"
      by (simp add: list_all2_conv_all_nth)
    then show "case xs ! i of
          ISpec c \<Rightarrow> ys ! i = c
        | IStr s \<Rightarrow> name (ys ! i) = None \<and> source (ys ! i) = s
            \<and> parseColor_old (Str s) = Inr (rgb (ys ! i))
        | IRgb t \<Rightarrow> False"
      by (rule arrayElement_old_element)
  qed
  ultimately show ?thesis by blast
qed

lemma mapColors_old_total:
  assumes "\<forall>x\<in>set xs. case x of ISpec c \<Rightarrow> rgb c \<noteq> Null
      | IStr s \<Rightarrow> \<not> isl (parseColor_old (Str s)) | IRgb t \<Rightarrow> False"
  shows "\<exists>zs. mapColors_old (ColorArray xs) = Inr zs"
proof -
  from assms have "\<forall>x\<in>set xs. \<exists>y. arrayElement_old x = Inr y"
    using arrayElement_old_total by blast
  then have "\<exists>zs. mapE arrayElement_old xs = Inr zs"
    by (rule mapE_total)
  then show ?thesis by simp
qed

text \<open>
  C9 (as amended). For an array passed to \<open>mapColors\<close>: an element that carries a source
  comes out unchanged when its RGB object is what its source parses to (\<open>consistent\<close>) and
  its name is absent or a non-empty string; in every case the output entry has the
  element's source, the RGB object that source parses to and the element's name, an empty
  name becoming no name. A string element gives an entry with no name, the string itself
  as source and the RGB object it parses to; an RGB object gives an unnamed entry whose
  source is its \<open>rgbToHex\<close> rendering. The normalization succeeds when the elements with a
  source are consistent and the strings parse. The counterexample has three one-element
  arrays: an element whose RGB object is not what its source parses to, and an element
  with an empty name, both carrying a source and neither passed through; and an RGB
  object, whose entry gets a rendered source.

  The older variant of \<open>mapColors\<close> tests \<open>color.rgb\<close>, not the source, and returns an
  element that has an \<open>rgb\<close> as it is, whatever its source and name; a string element
  gives an entry with no name, the string itself as source and what the older
  \<open>parseColor\<close> makes of it; an RGB object makes it throw.
\<close>

theorem list_normalization:
  "(mapColors (ColorArray xs) = Inr ys \<longrightarrow>
      length ys = length xs
    \<and> (\<forall>i<length xs. case xs ! i of
          ISpec c \<Rightarrow> name (ys ! i) = truthy (name c) \<and> source (ys ! i) = source c
            \<and> parseColor (Str (source c)) = Inr (rgb (ys ! i))
            \<and> (consistent c \<and> name c \<noteq> Some [] \<longrightarrow> ys ! i = c)
        | IStr s \<Rightarrow> name (ys ! i) = None \<and> source (ys ! i) = s
            \<and> parseColor (Str s) = Inr (rgb (ys ! i))
        | IRgb t \<Rightarrow> ys ! i = \<lparr>name = None, source = rgbToHex t, rgb = Rgb t\<rparr>))
   \<and> ((\<forall>x\<in>set xs. case x of ISpec c \<Rightarrow> consistent c
          | IStr s \<Rightarrow> \<not> isl (parseColor (Str s)) | IRgb t \<Rightarrow> True)
      \<longrightarrow> (\<exists>zs. mapColors (ColorArray xs) = Inr zs))
   \<and> (mapColors_old (ColorArray xs) = Inr ys \<longrightarrow>
      length ys = length xs
    \<and> (\<forall>i<length xs. case xs ! i of
          ISpec c \<Rightarrow> ys ! i = c
        | IStr s \<Rightarrow> name (ys ! i) = None \<and> source (ys ! i) = s
            \<and> parseColor_old (Str s) = Inr (rgb (ys ! i))
        | IRgb t \<Rightarrow> False))
   \<and> ((\<forall>x\<in>set xs. case x of ISpec c \<Rightarrow> rgb c \<noteq> Null
          | IStr s \<Rightarrow> \<not> isl (parseColor_old (Str s)) | IRgb t \<Rightarrow> False)
      \<longrightarrow> (\<exists>zs. mapColors_old (ColorArray xs) = Inr zs))"
proof (intro conjI impI)
  assume ok: "mapColors (ColorArray xs) = Inr ys"
  then have all2: "list_all2 (\<lambda>x y. createColorSpec x None = Inr y) xs ys"
    by (simp add: mapE_Inr_D)
  then show len: "length ys = length xs"
    by (simp add: list_all2_lengthD)
  show "\<forall>i<length xs. case xs ! i of
          ISpec c \<Rightarrow> name (ys ! i) = truthy (name c) \<and> source (ys ! i) = source c
            \<and> parseColor (Str (source c)) = Inr (rgb (ys ! i))
            \<and> (consistent c \<and> name c \<noteq> Some [] \<longrightarrow> ys ! i = c)
        | IStr s \<Rightarrow> name (ys ! i) = None \<and> source (ys ! i) = s
            \<and> parseColor (Str s) = Inr (rgb (ys ! i))
        | IRgb t \<Rightarrow> ys ! i = \<lparr>name = None, source = rgbToHex t, rgb = Rgb t\<rparr>"
  proof (intro allI impI)
    fix i
    assume "i < length xs"
    with all2 have "createColorSpec (xs ! i) None = Inr (ys ! i)"
      by (simp add: list_all2_conv_all_nth)
    then show "case xs ! i of
          ISpec c \<Rightarrow> name (ys ! i) = truthy (name c) \<and> source (ys ! i) = source c
            \<and> parseColor (Str (source c)) = Inr (rgb (ys ! i))
            \<and> (consistent c \<and> name c \<noteq> Some [] \<longrightarrow> ys ! i = c)
        | IStr s \<Rightarrow> name (ys ! i) = None \<and> source (ys ! i) = s
            \<and> parseColor (Str s) = Inr (rgb (ys ! i))
        | IRgb t \<Rightarrow> ys ! i = \<lparr>name = None, source = rgbToHex t, rgb = Rgb t\<rparr>"
      by (rule createColorSpec_element)
  qed
next
  assume "\<forall>x\<in>set xs. case x of ISpec c \<Rightarrow> consistent c
          | IStr s \<Rightarrow> \<not> isl (parseColor (Str s)) | IRgb t \<Rightarrow> True"
  then have "\<forall>x\<in>set xs. \<exists>y. createColorSpec x None = Inr y"
    using createColorSpec_total by blast
  then have "\<exists>zs. mapE (\<lambda>color. createColorSpec color None) xs = Inr zs"
    by (rule mapE_total)
  then show "\<exists>zs. mapColors (ColorArray xs) = Inr zs" by simp
next
  assume old: "mapColors_old (ColorArray xs) = Inr ys"
  from mapColors_old_elements [OF old] show "length ys = length xs"
    by (rule conjunct1)
  from mapColors_old_elements [OF old] show "\<forall>i<length xs. case xs ! i of
          ISpec c \<Rightarrow> ys ! i = c
        | IStr s \<Rightarrow> name (ys ! i) = None \<and> source (ys ! i) = s
            \<and> parseColor_old (Str s) = Inr (rgb (ys ! i))
        | IRgb t \<Rightarrow> False"
    by (rule conjunct2)
next
  assume "\<forall>x\<in>set xs. case x of ISpec c \<Rightarrow> rgb c \<noteq> Null
          | IStr s \<Rightarrow> \<not> isl (parseColor_old (Str s)) | IRgb t \<Rightarrow> False"
  then show "\<exists>zs. mapColors_old (ColorArray xs) = Inr zs"
    by (rule mapColors_old_total)
qed

theorem list_normalization_witness:
  "consistent \<lparr>name = Some ''maroon'', source = ''#800'', rgb = Rgb \<lparr>r = 136, g = 0, b = 0\<rparr>\<rparr>
   \<and> name \<lparr>name = Some ''maroon'', source = ''#800'', rgb = Rgb \<lparr>r = 136, g = 0, b = 0\<rparr>\<rparr>
       \<noteq> Some []
   \<and> mapColors (ColorArray
        [ISpec \<lparr>name = Some ''maroon'', source = ''#800'', rgb = Rgb \<lparr>r = 136, g = 0, b = 0\<rparr>\<rparr>,
         IStr ''#FF0''])
     = Inr [\<lparr>name = Some ''maroon'', source = ''#800'', rgb = Rgb \<lparr>r = 136, g = 0, b = 0\<rparr>\<rparr>,
            \<lparr>name = None, source = ''#FF0'', rgb = Rgb \<lparr>r = 255, g = 255, b = 0\<rparr>\<rparr>]
   \<and> mapColors_old (ColorArray
        [ISpec \<lparr>name = Some [], source = ''#f00'', rgb = Rgb \<lparr>r = 0, g = 0, b = 0\<rparr>\<rparr>,
         IStr ''#FF0''])
     = Inr [\<lparr>name = Some [], source = ''#f00'', rgb = Rgb \<lparr>r = 0, g = 0, b = 0\<rparr>\<rparr>,
            \<lparr>name = None, source = ''#FF0'', rgb = Rgb \<lparr>r = 255, g = 255, b = 0\<rparr>\<rparr>]"
proof -
  let ?e = "\<lparr>name = Some [], source = ''#f00'', rgb = Rgb \<lparr>r = 0, g = 0, b = 0\<rparr>\<rparr>"
  have q: "parseColor_old (Str ''#FF0'') = Inr (Rgb \<lparr>r = 255, g = 255, b = 0\<rparr>)"
    by (simp add: parse_old_defs parse_defs)
  then have "\<forall>x\<in>set [ISpec ?e, IStr ''#FF0'']. case x of ISpec c \<Rightarrow> rgb c \<noteq> Null
          | IStr s \<Rightarrow> \<not> isl (parseColor_old (Str s)) | IRgb t \<Rightarrow> False"
    by simp
  with list_normalization [of "[ISpec ?e, IStr ''#FF0'']"]
  obtain ws where ws: "mapColors_old (ColorArray [ISpec ?e, IStr ''#FF0'']) = Inr ws"
    by blast
  with list_normalization [of "[ISpec ?e, IStr ''#FF0'']" ws]
  have wlen: "length ws = 2"
    and wel: "\<forall>i<length [ISpec ?e, IStr ''#FF0'']. case [ISpec ?e, IStr ''#FF0''] ! i of
          ISpec c \<Rightarrow> ws ! i = c
        | IStr s \<Rightarrow> name (ws ! i) = None \<and> source (ws ! i) = s
            \<and> parseColor_old (Str s) = Inr (rgb (ws ! i))
        | IRgb t \<Rightarrow> False"
    by simp_all
  from wel have w0: "ws ! 0 = ?e" by auto
  from wel have "name (ws ! 1) = None \<and> source (ws ! 1) = ''#FF0''
      \<and> parseColor_old (Str ''#FF0'') = Inr (rgb (ws ! 1))"
    by (auto simp: All_less_Suc2)
  with q have w1: "ws ! 1 = \<lparr>name = None, source = ''#FF0'', rgb = Rgb \<lparr>r = 255, g = 255, b = 0\<rparr>\<rparr>"
    by (cases "ws ! 1") simp
  from wlen obtain w w' where "ws = [w, w']"
    by (cases ws; cases "tl ws"; auto simp: Suc_length_conv)
  with w0 w1 have "ws = [?e, \<lparr>name = None, source = ''#FF0'', rgb = Rgb \<lparr>r = 255, g = 255, b = 0\<rparr>\<rparr>]"
    by simp
  with ws have old: "mapColors_old (ColorArray [ISpec ?e, IStr ''#FF0''])
      = Inr [?e, \<lparr>name = None, source = ''#FF0'', rgb = Rgb \<lparr>r = 255, g = 255, b = 0\<rparr>\<rparr>]"
    by simp
  let ?m = "\<lparr>name = Some ''maroon'', source = ''#800'', rgb = Rgb \<lparr>r = 136, g = 0, b = 0\<rparr>\<rparr>"
  have c: "consistent ?m"
    by (simp add: consistent_def parse_defs)
  have p: "parseColor (Str ''#FF0'') = Inr (Rgb \<lparr>r = 255, g = 255, b = 0\<rparr>)"
    by (simp add: parse_defs)
  from c p have "\<forall>x\<in>set [ISpec ?m, IStr ''#FF0'']. case x of ISpec c \<Rightarrow> consistent c
          | IStr s \<Rightarrow> \<not> isl (parseColor (Str s)) | IRgb t \<Rightarrow> True"
    by simp
  with list_normalization [of "[ISpec ?m, IStr ''#FF0'']"]
  obtain zs where zs: "mapColors (ColorArray [ISpec ?m, IStr ''#FF0'']) = Inr zs"
    by blast
  with list_normalization [of "[ISpec ?m, IStr ''#FF0'']" zs]
  have len: "length zs = 2"
    and el: "\<forall>i<length [ISpec ?m, IStr ''#FF0'']. case [ISpec ?m, IStr ''#FF0''] ! i of
          ISpec c \<Rightarrow> name (zs ! i) = truthy (name c) \<and> source (zs ! i) = source c
            \<and> parseColor (Str (source c)) = Inr (rgb (zs ! i))
            \<and> (consistent c \<and> name c \<noteq> Some [] \<longrightarrow> zs ! i = c)
        | IStr s \<Rightarrow> name (zs ! i) = None \<and> source (zs ! i) = s
            \<and> parseColor (Str s) = Inr (rgb (zs ! i))
        | IRgb t \<Rightarrow> zs ! i = \<lparr>name = None, source = rgbToHex t, rgb = Rgb t\<rparr>"
    by simp_all
  from el c have z0: "zs ! 0 = ?m" by auto
  from el have "name (zs ! 1) = None \<and> source (zs ! 1) = ''#FF0''
      \<and> parseColor (Str ''#FF0'') = Inr (rgb (zs ! 1))"
    by (auto simp: All_less_Suc2)
  with p have z1: "zs ! 1 = \<lparr>name = None, source = ''#FF0'', rgb = Rgb \<lparr>r = 255, g = 255, b = 0\<rparr>\<rparr>"
    by (cases "zs ! 1") simp
  from len obtain a b' where "zs = [a, b']"
    by (cases zs; cases "tl zs"; auto simp: Suc_length_conv)
  with z0 z1 have "zs = [?m, \<lparr>name = None, source = ''#FF0'', rgb = Rgb \<lparr>r = 255, g = 255, b = 0\<rparr>\<rparr>]"
    by simp
  with zs c old show ?thesis by simp
qed

theorem list_passthrough_counterexample:
  "mapColors (ColorArray
        [ISpec \<lparr>name = None, source = ''#f00'', rgb = Rgb \<lparr>r = 0, g = 0, b = 0\<rparr>\<rparr>])
     = Inr [\<lparr>name = None, source = ''#f00'', rgb = Rgb \<lparr>r = 255, g = 0, b = 0\<rparr>\<rparr>]
   \<and> mapColors (ColorArray
        [ISpec \<lparr>name = Some [], source = ''#f00'', rgb = Rgb \<lparr>r = 255, g = 0, b = 0\<rparr>\<rparr>])
     = Inr [\<lparr>name = None, source = ''#f00'', rgb = Rgb \<lparr>r = 255, g = 0, b = 0\<rparr>\<rparr>]
   \<and> mapColors (ColorArray [IRgb \<lparr>r = 255, g = 128, b = 0\<rparr>])
     = Inr [\<lparr>name = None, source = ''#ff8000'', rgb = Rgb \<lparr>r = 255, g = 128, b = 0\<rparr>\<rparr>]"
  by (simp add: truthy_def parse_defs render_defs)

lemma from_Inr: "mapColors P = Inr ps \<Longrightarrow> from P = Inr (Matcher ps)"
  by (simp add: from_def)

lemma matcher_or_concat:
  assumes "list_all (\<lambda>c. consistent c \<and> name c \<noteq> Some []) ps" and "mapColors Q = Inr qs"
    and "list_all inputInRange (inputs Q)"
  shows "matcher_or (Matcher ps) Q = Inr (Matcher (ps @ qs))"
proof -
  from assms(2,3) have "list_all (\<lambda>c. consistent c \<and> name c \<noteq> Some []) qs"
    by (rule mapColors_consistent)
  with assms(1) have "list_all (\<lambda>c. consistent c \<and> name c \<noteq> Some []) (ps @ qs)" by simp
  then have "mapColors (ColorArray (map ISpec (ps @ qs))) = Inr (ps @ qs)"
    by (rule mapColors_passthrough)
  then have "from (ColorArray (map ISpec (ps @ qs))) = Inr (Matcher (ps @ qs))"
    by (rule from_Inr)
  with assms(2) show ?thesis
    by (simp add: matcher_or_def)
qed

text \<open>
  C5 (as amended). When the RGB objects among the elements of \<open>P\<close> and of \<open>Q\<close> have
  integer components (the type \<open>RGB\<close>), each in 0..255 (\<open>inputInRange\<close>), and \<open>ps\<close>,
  \<open>qs\<close> are the normalized \<open>P\<close> and \<open>Q\<close>: \<open>from(P).or(Q)\<close> is the matcher over
  \<open>ps @ qs\<close>, so on every needle it returns what \<open>nearestColor\<close> returns on the
  concatenation; for a needle and entries in \<open>exactRange\<close>, where the code computes the
  distances without rounding, the first entry of \<open>ps @ qs\<close> at least distance wins; and
  that matcher has \<open>from\<close> and \<open>or\<close> again. The counterexample has an RGB object with
  the integer component 256: \<open>from(P)\<close> is a matcher, \<open>or\<close> on it throws.
\<close>

theorem or_is_concatenation:
  assumes P: "mapColors P = Inr ps" and Q: "mapColors Q = Inr qs"
    and rp: "list_all inputInRange (inputs P)" and rq: "list_all inputInRange (inputs Q)"
  shows "from P = Inr (Matcher ps)
     \<and> matcher_or (Matcher ps) Q = Inr (Matcher (ps @ qs))
     \<and> (\<forall>needle. matcher_call (Matcher (ps @ qs)) needle = nearestColor needle (Some (ps @ qs)))
     \<and> (\<forall>needle q ts. parseColor needle = Inr (Rgb q) \<and> ps @ qs \<noteq> []
            \<and> map rgb (ps @ qs) = map Rgb ts \<and> exactRange q \<and> list_all exactRange ts \<longrightarrow>
          (\<exists>i<length (ps @ qs).
              (\<forall>j<length (ps @ qs). squaredDistance q (ts ! i) \<le> squaredDistance q (ts ! j))
            \<and> (\<forall>j<i. squaredDistance q (ts ! i) < squaredDistance q (ts ! j))
            \<and> matcher_call (Matcher (ps @ qs)) needle =
                Inr (case truthy (name ((ps @ qs) ! i)) of
                       Some n \<Rightarrow> ResultMatch \<lparr>ColorMatch.name = n, value = source ((ps @ qs) ! i),
                                   ColorMatch.rgb = rgb ((ps @ qs) ! i),
                                   distance = sqrt (of_int (squaredDistance q (ts ! i)))\<rparr>
                     | None \<Rightarrow> ResultSource (source ((ps @ qs) ! i)))))
     \<and> (\<forall>R. matcher_from (Matcher (ps @ qs)) R = from R)
     \<and> (\<forall>R rs. mapColors R = Inr rs \<and> list_all inputInRange (inputs R) \<longrightarrow>
          matcher_or (Matcher (ps @ qs)) R = Inr (Matcher ((ps @ qs) @ rs)))"
proof (intro conjI allI impI)
  from P show "from P = Inr (Matcher ps)" by (rule from_Inr)
  from P rp have cp: "list_all (\<lambda>c. consistent c \<and> name c \<noteq> Some []) ps"
    by (rule mapColors_consistent)
  from Q rq have cq: "list_all (\<lambda>c. consistent c \<and> name c \<noteq> Some []) qs"
    by (rule mapColors_consistent)
  from cp Q rq show "matcher_or (Matcher ps) Q = Inr (Matcher (ps @ qs))"
    by (rule matcher_or_concat)
  show "matcher_call (Matcher (ps @ qs)) needle = nearestColor needle (Some (ps @ qs))" for needle
    by (simp add: matcher_call_def)
  show "matcher_from (Matcher (ps @ qs)) R = from R" for R
    by (simp add: matcher_from_def)
  show "matcher_or (Matcher (ps @ qs)) R = Inr (Matcher ((ps @ qs) @ rs))"
    if "mapColors R = Inr rs \<and> list_all inputInRange (inputs R)" for R rs
  proof -
    from cp cq have "list_all (\<lambda>c. consistent c \<and> name c \<noteq> Some []) (ps @ qs)" by simp
    with that show ?thesis by (simp add: matcher_or_concat)
  qed
  show "\<exists>i<length (ps @ qs).
              (\<forall>j<length (ps @ qs). squaredDistance q (ts ! i) \<le> squaredDistance q (ts ! j))
            \<and> (\<forall>j<i. squaredDistance q (ts ! i) < squaredDistance q (ts ! j))
            \<and> matcher_call (Matcher (ps @ qs)) needle =
                Inr (case truthy (name ((ps @ qs) ! i)) of
                       Some n \<Rightarrow> ResultMatch \<lparr>ColorMatch.name = n, value = source ((ps @ qs) ! i),
                                   ColorMatch.rgb = rgb ((ps @ qs) ! i),
                                   distance = sqrt (of_int (squaredDistance q (ts ! i)))\<rparr>
                     | None \<Rightarrow> ResultSource (source ((ps @ qs) ! i)))"
    if h: "parseColor needle = Inr (Rgb q) \<and> ps @ qs \<noteq> []
            \<and> map rgb (ps @ qs) = map Rgb ts \<and> exactRange q \<and> list_all exactRange ts"
    for needle q ts
  proof -
    from h have parse: "parseColor needle = Inr (Rgb q)" and ne: "ps @ qs \<noteq> []"
      and rgbs: "map rgb (ps @ qs) = map Rgb ts"
      by blast+
    from scan_None [OF rgbs ne, of q] obtain i where i: "i < length (ps @ qs)"
      and sc: "scan (Rgb q) (ps @ qs) None
          = Inr (Some (squaredDistance q (ts ! i), (ps @ qs) ! i))"
      and low: "\<forall>j<length (ps @ qs). squaredDistance q (ts ! i) \<le> squaredDistance q (ts ! j)"
      and first: "\<forall>j<i. squaredDistance q (ts ! i) < squaredDistance q (ts ! j)"
      by blast
    from nearestColor_scan [OF parse sc]
    have "matcher_call (Matcher (ps @ qs)) needle =
                Inr (case truthy (name ((ps @ qs) ! i)) of
                       Some n \<Rightarrow> ResultMatch \<lparr>ColorMatch.name = n, value = source ((ps @ qs) ! i),
                                   ColorMatch.rgb = rgb ((ps @ qs) ! i),
                                   distance = sqrt (of_int (squaredDistance q (ts ! i)))\<rparr>
                     | None \<Rightarrow> ResultSource (source ((ps @ qs) ! i)))"
      by (simp add: matcher_call_def)
    with i low first show ?thesis by blast
  qed
qed

theorem or_is_concatenation_witness:
  "from (ColorObject [(''maroon'', IStr ''#800''),
        (''light yellow'', IRgb \<lparr>r = 255, g = 255, b = 51\<rparr>)])
     = Inr (Matcher
         [\<lparr>name = Some ''maroon'', source = ''#800'', rgb = Rgb \<lparr>r = 136, g = 0, b = 0\<rparr>\<rparr>,
          \<lparr>name = Some ''light yellow'', source = ''#ffff33'',
            rgb = Rgb \<lparr>r = 255, g = 255, b = 51\<rparr>\<rparr>])
   \<and> matcher_or (Matcher
         [\<lparr>name = Some ''maroon'', source = ''#800'', rgb = Rgb \<lparr>r = 136, g = 0, b = 0\<rparr>\<rparr>,
          \<lparr>name = Some ''light yellow'', source = ''#ffff33'',
            rgb = Rgb \<lparr>r = 255, g = 255, b = 51\<rparr>\<rparr>])
       (ColorArray [IStr ''#eee'', IStr ''#444''])
     = Inr (Matcher
         [\<lparr>name = Some ''maroon'', source = ''#800'', rgb = Rgb \<lparr>r = 136, g = 0, b = 0\<rparr>\<rparr>,
          \<lparr>name = Some ''light yellow'', source = ''#ffff33'',
            rgb = Rgb \<lparr>r = 255, g = 255, b = 51\<rparr>\<rparr>,
          \<lparr>name = None, source = ''#eee'', rgb = Rgb \<lparr>r = 238, g = 238, b = 238\<rparr>\<rparr>,
          \<lparr>name = None, source = ''#444'', rgb = Rgb \<lparr>r = 68, g = 68, b = 68\<rparr>\<rparr>])"
proof -
  have P: "mapColors (ColorObject [(''maroon'', IStr ''#800''),
        (''light yellow'', IRgb \<lparr>r = 255, g = 255, b = 51\<rparr>)])
     = Inr [\<lparr>name = Some ''maroon'', source = ''#800'', rgb = Rgb \<lparr>r = 136, g = 0, b = 0\<rparr>\<rparr>,
          \<lparr>name = Some ''light yellow'', source = ''#ffff33'',
            rgb = Rgb \<lparr>r = 255, g = 255, b = 51\<rparr>\<rparr>]"
    by (simp add: truthy_def parse_defs render_defs)
  have Q: "mapColors (ColorArray [IStr ''#eee'', IStr ''#444''])
     = Inr [\<lparr>name = None, source = ''#eee'', rgb = Rgb \<lparr>r = 238, g = 238, b = 238\<rparr>\<rparr>,
          \<lparr>name = None, source = ''#444'', rgb = Rgb \<lparr>r = 68, g = 68, b = 68\<rparr>\<rparr>]"
    by (simp add: truthy_def parse_defs)
  have rp: "list_all inputInRange (inputs (ColorObject [(''maroon'', IStr ''#800''),
        (''light yellow'', IRgb \<lparr>r = 255, g = 255, b = 51\<rparr>)]))"
    by (simp add: inRange_def)
  have rq: "list_all inputInRange (inputs (ColorArray [IStr ''#eee'', IStr ''#444'']))"
    by simp
  from or_is_concatenation [OF P Q rp rq] show ?thesis
    by simp
qed

theorem or_out_of_range_counterexample:
  "from (ColorObject [(''x'', IRgb \<lparr>r = 256, g = 0, b = 0\<rparr>)])
     = Inr (Matcher
         [\<lparr>name = Some ''x'', source = ''#1000000'', rgb = Rgb \<lparr>r = 256, g = 0, b = 0\<rparr>\<rparr>])
   \<and> mapColors (ColorArray []) = Inr []
   \<and> matcher_or (Matcher
         [\<lparr>name = Some ''x'', source = ''#1000000'', rgb = Rgb \<lparr>r = 256, g = 0, b = 0\<rparr>\<rparr>])
       (ColorArray [])
     = Inl (InvalidColorFormat ''#1000000'')
   \<and> nearestColor (Str ''#f00'')
       (Some ([\<lparr>name = Some ''x'', source = ''#1000000'', rgb = Rgb \<lparr>r = 256, g = 0, b = 0\<rparr>\<rparr>]
          @ []))
     = Inr (ResultMatch \<lparr>ColorMatch.name = ''x'', value = ''#1000000'',
              ColorMatch.rgb = Rgb \<lparr>r = 256, g = 0, b = 0\<rparr>, distance = 1\<rparr>)"
  by (simp add: match_defs parse_defs render_defs)

lemma invalid_source_fails:
  assumes "map_of STANDARD_COLORS s = None" and "map_of Object_prototype s = None"
    and "hexMatch s = None" and "rgbMatch s = None"
  shows "parseColor (Str s) = Inl (InvalidColorFormat s)"
    and "nearestColor (Str s) cs = Inl (InvalidColorFormat s)"
    and "createColorSpec (IStr s) nm = Inl (InvalidColorFormat s)"
    and "mapColors (ColorArray xs) = Inr ys
      \<Longrightarrow> mapColors (ColorArray (xs @ IStr s # zs)) = Inl (InvalidColorFormat s)"
    and "mapColors (ColorObject kvs) = Inr ys
      \<Longrightarrow> mapColors (ColorObject (kvs @ (k, IStr s) # kzs)) = Inl (InvalidColorFormat s)"
proof -
  from assms show parse: "parseColor (Str s) = Inl (InvalidColorFormat s)"
    by (simp add: parseColor_Str STANDARD_COLORS_get_def)
  then show "nearestColor (Str s) cs = Inl (InvalidColorFormat s)"
    by (simp add: nearestColor_def)
  from parse show create: "createColorSpec (IStr s) nm = Inl (InvalidColorFormat s)" for nm
    by simp
  show "mapColors (ColorArray (xs @ IStr s # zs)) = Inl (InvalidColorFormat s)"
    if "mapColors (ColorArray xs) = Inr ys"
    using that create [of None] by (simp add: mapE_first_error)
  show "mapColors (ColorObject (kvs @ (k, IStr s) # kzs)) = Inl (InvalidColorFormat s)"
    if "mapColors (ColorObject kvs) = Inr ys"
    using that create [of "Some k"] by (simp add: mapE_first_error)
qed

text \<open>
  C7. The code at the inputs \<open>constructor\<close> and \<open>__proto__\<close>: neither is one of the 17
  names, a hexadecimal source or an \<open>rgb(...)\<close> source, yet \<open>source in STANDARD_COLORS\<close>
  holds for both, as properties inherited from \<open>Object.prototype\<close>. Parsing the first ends
  in the \<open>TypeError\<close> of calling \<open>match\<close> on a function, not in the error of an invalid
  colour; parsing the second returns \<open>Object.prototype\<close> and raises nothing, also as a
  palette entry. The source \<open>foo\<close> is rejected with the error of an invalid colour, as
  a needle and as a palette entry (lemma \<open>invalid_source_fails\<close> has every source that
  is outside the table, outside its prototype and outside both grammars).
\<close>

theorem inherited_property_name_is_not_rejected:
  "map_of STANDARD_COLORS ''constructor'' = None
   \<and> hexMatch ''constructor'' = None \<and> rgbMatch ''constructor'' = None
   \<and> parseColor (Str ''constructor'') = Inl (TypeError MatchNotAFunction)
   \<and> nearestColor (Str ''constructor'') None = Inl (TypeError MatchNotAFunction)
   \<and> mapColors (ColorArray [IStr ''constructor'']) = Inl (TypeError MatchNotAFunction)
   \<and> map_of STANDARD_COLORS ''__proto__'' = None
   \<and> hexMatch ''__proto__'' = None \<and> rgbMatch ''__proto__'' = None
   \<and> parseColor (Str ''__proto__'') = Inr ObjectPrototype
   \<and> mapColors (ColorArray [IStr ''__proto__''])
       = Inr [\<lparr>name = None, source = ''__proto__'', rgb = ObjectPrototype\<rparr>]
   \<and> parseColor (Str ''foo'') = Inl (InvalidColorFormat ''foo'')
   \<and> nearestColor (Str ''foo'') None = Inl (InvalidColorFormat ''foo'')
   \<and> mapColors (ColorArray [IStr ''foo'']) = Inl (InvalidColorFormat ''foo'')
   \<and> mapColors (ColorObject [(''invalid'', IStr ''foo'')]) = Inl (InvalidColorFormat ''foo'')"
  by (simp add: nearestColor_def truthy_def parse_defs)

end
